theory Spec2Isabelle
  imports Main
begin

section \<open>The UniFi Protect API client (protect-api.ts)\<close>

text \<open>
  A shallow embedding of the class \<open>ProtectApi\<close>. Every method becomes a function that
  takes the instance's fields as a record and returns its result together with the
  updated record. The outside world is explicit:
  \<^item> the clock (\<open>Date.now()\<close>) is the field \<open>clock\<close>, in milliseconds; it only moves
    while a network call is awaited, by the time the reply says it took;
  \<^item> the network is an oracle \<open>net\<close> that answers the k-th request of a run; every
    request handed to the transport is appended to the field \<open>sent\<close>, so "no network
    I/O" is "\<open>sent\<close> is unchanged";
  \<^item> the logging collaborator is the field \<open>log\<close>, a list of severities and message
    templates (the formatted arguments are kept only where a claim reads them; calls of
    the \<open>debug\<close> callback are left out);
  \<^item> a JavaScript exception that leaves a method is the \<open>Inl\<close> of a sum type.
  Each method is modelled as run to completion: no other task of the event loop is
  interleaved at its \<open>await\<close>s. The one place where interleaving is the point, the
  pending-login latch of \<open>login()\<close>, has its own event model below. The handlers that
  the updates listener registers on its socket, and the callback of the heartbeat timer,
  run in later turns of the event loop: each is a function of its own on the instance.
  Numbers are JavaScript doubles in the source; counters and millisecond timestamps
  stay far below \<open>2^53\<close>, where doubles are exact integers, and are modelled as \<open>int\<close>.
\<close>

subsection \<open>Settings and payload types\<close>

text \<open>
  The constants of \<open>./settings\<close> are not part of the sources at hand; they are taken as
  a parameter. The intervals are in seconds, the code multiplies by 1000.
\<close>

record settings =
  PROTECT_API_ERROR_LIMIT :: int
  PROTECT_API_RETRY_INTERVAL :: int
  PROTECT_API_TIMEOUT :: int
  PROTECT_EVENTS_HEARTBEAT_INTERVAL :: int
  PROTECT_LOGIN_REFRESH_INTERVAL :: int

text \<open>
  The payload types of \<open>./protect-types\<close> are missing as well. The records below carry
  the fields that the code of \<open>protect-api.ts\<close> reads; a field the code guards with
  \<open>?.\<close> or a truthiness test is optional.
\<close>

record ProtectCameraChannelConfig =
  channelId :: nat
  isRtspEnabled :: bool

record ProtectCameraConfig =
  cameraId :: string
  mac :: string
  cameraName :: string
  modelKey :: string
  isManaged :: bool
  channels :: "ProtectCameraChannelConfig list option"

record ProtectNvrUserConfig =
  userId :: string
  allPermissions :: "string list option"

record ProtectNvrConfig =
  nvrName :: string
  nvrType :: string
  nvrHost :: string
  nvrMac :: string

record ProtectNvrBootstrap =
  cameras :: "ProtectCameraConfig list option"
  users :: "ProtectNvrUserConfig list option"
  authUserId :: string
  lastUpdateId :: "string option"
  nvr :: "ProtectNvrConfig option"

text \<open>What \<open>response.json()\<close> can decode to, as far as the callers look at it.\<close>

datatype json = JBootstrap ProtectNvrBootstrap | JCamera ProtectCameraConfig | JOther

subsection \<open>Requests, responses and the network oracle\<close>

datatype request_body =
    LoginBody string string
  | ChannelsBody "ProtectCameraChannelConfig list option"
  | PayloadBody string

record request =
  reqUrl :: string
  reqMethod :: string
  reqBody :: "request_body option"
  reqHeaders :: "string \<rightharpoonup> string"

text \<open>
  A response: its status, its headers (names as the code spells them; \<open>Headers\<close> is
  case-insensitive) and its body, \<open>None\<close> when the body is not JSON.
\<close>

record response =
  status :: int
  respHeaders :: "string \<rightharpoonup> string"
  body :: "json option"

definition ok :: "response \<Rightarrow> bool" where
  "ok r = (200 \<le> status r \<and> status r \<le> 299)"

text \<open>\<open>response?.ok\<close> on a response that may be \<open>null\<close>.\<close>

definition respOk :: "response option \<Rightarrow> bool" where
  "respOk resp = (case resp of None \<Rightarrow> False | Some r \<Rightarrow> ok r)"

text \<open>
  What the transport call \<open>fetch(url, options)\<close> can do: resolve with a response, or
  throw. \<open>AbortError\<close> is the error raised when the request timer aborts the call.
\<close>

datatype fetch_error = AbortError | FetchError string string | OtherError

datatype net_outcome = Responded response | Threw fetch_error

record net_reply =
  elapsed :: int
  outcome :: net_outcome

datatype exn = TypeError | InvalidJson

text \<open>
  \<open>new WebSocket(url, ...)\<close> throws (the \<open>Inl\<close>, with the error's message), or yields
  the socket; the code also tests the result for falsiness, which is the \<open>Inr None\<close>
  here. Whether the connection is then established is not known when the constructor
  returns.
\<close>

type_synonym websocket = nat

record env =
  net :: "nat \<Rightarrow> request \<Rightarrow> net_reply"
  wsNew :: "string \<Rightarrow> string \<Rightarrow> string + websocket option"

subsection \<open>The log\<close>

datatype message =
    ThrottlingApiCalls int
  | ResumingConnectivity
  | InvalidLoginCredentials
  | InsufficientPrivileges
  | ApiAccessError int
  | ConnectionTookTooLong
  | ConnectionRefused
  | ConnectionReset
  | HostNotFound
  | FetchErrorMessage string
  | UnableToRetrieveNvrConfiguration
  | UnableToParseResponse
  | UnableToRetrieveCameraInformation
  | ConnectedToController
  | UnableToConnectToUpdates
  | ErrorConnectingToUpdates string
  | ConnectedToUpdates
  | AdministratorRoleRequired
  | RoleChange bool
  | Discovered string
  | InsufficientPrivilegesRtsp
  | UnableToEnableRtsp "int option"
  | UnableToConfigureCamera "int option"
  | ListenerError string

datatype log_entry = Info message | Error message

subsection \<open>The instance\<close>

record ProtectApi =
  apiErrorCount :: int
  apiLastSuccess :: int
  bootstrap :: "ProtectNvrBootstrap option"
  Cameras :: "ProtectCameraConfig list option"
  eventListener :: "websocket option"
  eventListenerConfigured :: bool
  eventHeartbeatTimer :: "int option"
  headers :: "string \<rightharpoonup> string"
  isAdminUser :: bool
  loggedIn :: bool
  loginAge :: int
  nvrAddress :: string
  password :: string
  username :: string
  clock :: int
  sent :: "request list"
  terminated :: "websocket list"
  log :: "log_entry list"

definition logInfo :: "message \<Rightarrow> ProtectApi \<Rightarrow> ProtectApi" where
  "logInfo m s = s\<lparr>log := log s @ [Info m]\<rparr>"

definition logError :: "message \<Rightarrow> ProtectApi \<Rightarrow> ProtectApi" where
  "logError m s = s\<lparr>log := log s @ [Error m]\<rparr>"

text \<open>\<open>clearLoginCredentials\<close>, lines 589-603.\<close>

definition clearLoginCredentials :: "ProtectApi \<Rightarrow> ProtectApi" where
  "clearLoginCredentials s =
     s\<lparr>isAdminUser := False,
       loggedIn := False,
       loginAge := 0,
       bootstrap := None,
       terminated := (case eventListener s of None \<Rightarrow> terminated s
                      | Some ws \<Rightarrow> terminated s @ [ws]),
       eventListener := None,
       eventListenerConfigured := False,
       headers := [''Content-Type'' \<mapsto> ''application/json'']\<rparr>"

subsection \<open>The request gateway: \<open>fetch\<close>\<close>

text \<open>
  Lines 657-723: the transport call and the classification of its outcome, reached
  when the throttle lets the call through. The request carries the instance's headers.
  The second reading of the clock, on success, is after the time the call took.
\<close>

definition fetchAttempt ::
  "env \<Rightarrow> string \<Rightarrow> string \<Rightarrow> request_body option \<Rightarrow> bool \<Rightarrow> bool \<Rightarrow> ProtectApi
   \<Rightarrow> response option \<times> ProtectApi" where
  "fetchAttempt e url method rbody logErrors decodeResponse s =
     (let req = \<lparr>reqUrl = url, reqMethod = method, reqBody = rbody, reqHeaders = headers s\<rparr>;
          reply = net e (length (sent s)) req;
          s1 = s\<lparr>sent := sent s @ [req], clock := clock s + elapsed reply\<rparr>
      in case outcome reply of
           Responded r \<Rightarrow>
             if \<not> decodeResponse then (Some r, s1)
             else if status r = 401 then
               (None, (logError InvalidLoginCredentials s1)\<lparr>apiErrorCount := apiErrorCount s1 + 1\<rparr>)
             else if status r = 403 then
               (None, logError InsufficientPrivileges (s1\<lparr>apiErrorCount := apiErrorCount s1 + 1\<rparr>))
             else if \<not> ok r then
               (None, logError (ApiAccessError (status r)) (s1\<lparr>apiErrorCount := apiErrorCount s1 + 1\<rparr>))
             else (Some r, s1\<lparr>apiLastSuccess := clock s1, apiErrorCount := 0\<rparr>)
         | Threw err \<Rightarrow>
             (let s2 = s1\<lparr>apiErrorCount := apiErrorCount s1 + 1\<rparr>
              in case err of
                   AbortError \<Rightarrow> (None, logError ConnectionTookTooLong s2)
                 | FetchError code msg \<Rightarrow>
                     (None,
                      if code = ''ECONNREFUSED'' then logError ConnectionRefused s2
                      else if code = ''ECONNRESET'' then logError ConnectionReset s2
                      else if code = ''ENOTFOUND'' then logError HostNotFound s2
                      else if logErrors then logError (FetchErrorMessage msg) s2
                      else s2)
                 | OtherError \<Rightarrow> (None, s2)))"

text \<open>
  \<open>fetch\<close>, lines 615-730: the throttle (lines 631-655), then the attempt. \<open>null\<close> is
  \<open>None\<close>.
\<close>

definition fetch ::
  "settings \<Rightarrow> env \<Rightarrow> string \<Rightarrow> string \<Rightarrow> request_body option \<Rightarrow> bool \<Rightarrow> bool \<Rightarrow> ProtectApi
   \<Rightarrow> response option \<times> ProtectApi" where
  "fetch cfg e url method rbody logErrors decodeResponse s =
     (let now = clock s in
      if apiErrorCount s \<ge> PROTECT_API_ERROR_LIMIT cfg then
        if apiErrorCount s = PROTECT_API_ERROR_LIMIT cfg then
          (None, (logInfo (ThrottlingApiCalls (apiErrorCount s)) s)
                   \<lparr>apiErrorCount := apiErrorCount s + 1, apiLastSuccess := now\<rparr>)
        else if apiLastSuccess s + PROTECT_API_RETRY_INTERVAL cfg * 1000 > now then
          (None, s)
        else
          fetchAttempt e url method rbody logErrors decodeResponse
            ((logInfo ResumingConnectivity s)\<lparr>apiErrorCount := 0\<rparr>)
      else fetchAttempt e url method rbody logErrors decodeResponse s)"

subsection \<open>Logging in\<close>

text \<open>\<open>headers.has(name)\<close>, and the truthiness of \<open>headers.get(name)\<close>: an absent header
  and the empty string are both falsy.\<close>

definition has :: "(string \<rightharpoonup> string) \<Rightarrow> string \<Rightarrow> bool" where
  "has h name = (h name \<noteq> None)"

definition truthy :: "string option \<Rightarrow> bool" where
  "truthy v = (case v of None \<Rightarrow> False | Some x \<Rightarrow> x \<noteq> [])"

definition authUrl :: "ProtectApi \<Rightarrow> string" where
  "authUrl s = ''https://'' @ nvrAddress s @ ''/api/auth/login''"

definition bootstrapUrl :: "ProtectApi \<Rightarrow> string" where
  "bootstrapUrl s = ''https://'' @ nvrAddress s @ ''/proxy/protect/api/bootstrap''"

definition camerasUrl :: "ProtectApi \<Rightarrow> string" where
  "camerasUrl s = ''https://'' @ nvrAddress s @ ''/proxy/protect/api/cameras''"

definition updatesUrl :: "ProtectApi \<Rightarrow> string" where
  "updatesUrl s = ''wss://'' @ nvrAddress s @ ''/proxy/protect/ws/updates''"

text \<open>
  \<open>acquireToken\<close>, lines 77-102. The third argument of its \<open>fetch\<close> is \<open>logErrors\<close>:
  the probe runs with \<open>logErrors = false\<close> and the default \<open>decodeResponse = true\<close>.
\<close>

definition acquireToken :: "settings \<Rightarrow> env \<Rightarrow> ProtectApi \<Rightarrow> bool \<times> ProtectApi" where
  "acquireToken cfg e s =
     (if loggedIn s \<or> has (headers s) ''X-CSRF-Token'' \<or> has (headers s) ''Authorization''
      then (True, s)
      else case fetch cfg e (''https://'' @ nvrAddress s) ''GET'' None False True s of
             (resp, s1) \<Rightarrow>
               (case resp of
                  None \<Rightarrow> (False, s1)
                | Some r \<Rightarrow>
                    if ok r \<and> truthy (respHeaders r ''X-CSRF-Token'')
                    then (True, s1\<lparr>headers := (headers s1)(''X-CSRF-Token'' := respHeaders r ''X-CSRF-Token'')\<rparr>)
                    else (False, s1)))"

text \<open>\<open>loginWrapped\<close>, lines 105-154. \<open>now\<close> is read once, before anything is awaited.\<close>

definition loginWrapped :: "settings \<Rightarrow> env \<Rightarrow> ProtectApi \<Rightarrow> bool \<times> ProtectApi" where
  "loginWrapped cfg e s =
     (let now = clock s;
          s0 = (if now > loginAge s + PROTECT_LOGIN_REFRESH_INTERVAL cfg * 1000
                then clearLoginCredentials s else s)
      in if loggedIn s0 then (True, s0)
         else case acquireToken cfg e s0 of
                (False, s1) \<Rightarrow> (False, clearLoginCredentials s1)
              | (True, s1) \<Rightarrow>
                  (case fetch cfg e (authUrl s1) ''POST''
                          (Some (LoginBody (password s1) (username s1))) True True s1 of
                     (resp, s2) \<Rightarrow>
                       (case resp of
                          None \<Rightarrow> (False, clearLoginCredentials s2)
                        | Some r \<Rightarrow>
                            if \<not> ok r then (False, clearLoginCredentials s2)
                            else
                              (let s3 = s2\<lparr>loggedIn := True, loginAge := now\<rparr>
                               in if truthy (respHeaders r ''X-CSRF-Token'')
                                     \<and> truthy (respHeaders r ''Set-Cookie'')
                                     \<and> has (headers s3) ''X-CSRF-Token''
                                  then (True,
                                        s3\<lparr>headers := (headers s3)
                                              (''Cookie'' := respHeaders r ''Set-Cookie'',
                                               ''X-CSRF-Token'' := respHeaders r ''X-CSRF-Token'')\<rparr>)
                                  else (False, clearLoginCredentials s3)))))"

text \<open>
  \<open>login\<close>, lines 156-163, called while no attempt is pending and awaited with nothing
  interleaved: it starts \<open>loginWrapped\<close> and hands out that run's promise, so the
  caller sees the run's result. What the pending-attempt marker does when several
  callers overlap is modelled separately (the latch, below).
\<close>

definition login :: "settings \<Rightarrow> env \<Rightarrow> ProtectApi \<Rightarrow> bool \<times> ProtectApi" where
  "login cfg e s = loginWrapped cfg e s"

subsection \<open>Administrator privileges\<close>

text \<open>
  \<open>String.prototype.split\<close> with a one-character separator: the pieces between the
  separators, never an empty array (\<open>"".split(":")\<close> is \<open>[""]\<close>).
\<close>

fun split_on :: "char \<Rightarrow> string \<Rightarrow> string list" where
  "split_on c [] = [[]]"
| "split_on c (x # xs) =
     (if x = c then [] # split_on c xs
      else (case split_on c xs of
              [] \<Rightarrow> [[x]]
            | w # ws \<Rightarrow> (x # w) # ws))"

text \<open>
  The loop of lines 362-380 over \<open>user.allPermissions\<close>. \<open>permType[1]\<close> of a
  one-element array is \<open>undefined\<close>, and calling \<open>split\<close> on it throws a TypeError.
  \<open>continue\<close> is the recursive call, \<open>break\<close> with \<open>newAdminStatus = true\<close> is
  \<open>Inr True\<close>, falling off the end of the list is \<open>Inr False\<close>.
\<close>

fun scanPermissions :: "string list \<Rightarrow> exn + bool" where
  "scanPermissions [] = Inr False"
| "scanPermissions (entry # rest) =
     (case split_on CHR '':'' entry of
        [] \<Rightarrow> scanPermissions rest
      | [p0] \<Rightarrow> if p0 \<noteq> ''camera'' then scanPermissions rest else Inl TypeError
      | p0 # p1 # _ \<Rightarrow>
          if p0 \<noteq> ''camera'' then scanPermissions rest
          else if ''write'' \<in> set (split_on CHR '','' p1) then Inr True
          else scanPermissions rest)"

text \<open>\<open>checkAdminUserStatus\<close>, lines 346-394.\<close>

definition checkAdminUserStatus :: "bool \<Rightarrow> ProtectApi \<Rightarrow> (exn + bool) \<times> ProtectApi" where
  "checkAdminUserStatus firstRun s =
     (case bootstrap s of
        None \<Rightarrow> (Inr False, s)
      | Some b \<Rightarrow>
         (case users b of
            None \<Rightarrow> (Inr False, s)
          | Some us \<Rightarrow>
             (let oldAdminStatus = isAdminUser s
              in case find (\<lambda>x. userId x = authUserId b) us of
                   None \<Rightarrow> (Inr False, s)
                 | Some user \<Rightarrow>
                    (case allPermissions user of
                       None \<Rightarrow> (Inr False, s)
                     | Some perms \<Rightarrow>
                        (case scanPermissions perms of
                           Inl err \<Rightarrow> (Inl err, s)
                         | Inr newAdminStatus \<Rightarrow>
                            (let s1 = s\<lparr>isAdminUser := newAdminStatus\<rparr>
                             in (Inr True,
                                 if firstRun \<and> \<not> isAdminUser s1
                                 then logInfo AdministratorRoleRequired s1
                                 else if \<not> firstRun \<and> oldAdminStatus \<noteq> isAdminUser s1
                                 then logInfo (RoleChange (isAdminUser s1)) s1
                                 else s1)))))))"

subsection \<open>The realtime updates listener\<close>

text \<open>
  \<open>launchUpdatesListener\<close>, lines 221-283. The socket is opened with the updates URL,
  the query string \<open>params\<close> built from the cursor \<open>bootstrap?.lastUpdateId ?? ""\<close> (its
  percent-encoding is not modelled) and the header \<open>Cookie: headers.get("Cookie") ?? ""\<close>.
  The constructor returns the socket before the connection is made, and throws only
  for an address it cannot parse; the call records the socket and returns. The handlers
  it registers (below) run in later turns of the event loop. A throw of
  \<open>new WebSocket\<close> is caught at line 278, after which control reaches the
  \<open>return true\<close> of line 282.
\<close>

definition updatesParams :: "ProtectApi \<Rightarrow> string" where
  "updatesParams s =
     ''lastUpdateId='' @ (case bootstrap s of None \<Rightarrow> []
                          | Some b \<Rightarrow> (case lastUpdateId b of None \<Rightarrow> [] | Some i \<Rightarrow> i))"

definition cookieHeader :: "ProtectApi \<Rightarrow> string" where
  "cookieHeader s = (case headers s ''Cookie'' of None \<Rightarrow> [] | Some c \<Rightarrow> c)"

definition launchUpdatesListener :: "settings \<Rightarrow> env \<Rightarrow> ProtectApi \<Rightarrow> (exn + bool) \<times> ProtectApi" where
  "launchUpdatesListener cfg e s =
     (case login cfg e s of
        (False, s1) \<Rightarrow> (Inr False, s1)
      | (True, s1) \<Rightarrow>
          if eventListener s1 \<noteq> None then (Inr True, s1)
          else
            (case wsNew e (updatesUrl s1 @ ''?'' @ updatesParams s1) (cookieHeader s1) of
               Inl err \<Rightarrow> (Inr True, logError (ErrorConnectingToUpdates err) s1)
             | Inr None \<Rightarrow>
                 (Inr False,
                  (logError UnableToConnectToUpdates s1)
                    \<lparr>eventListener := None, eventListenerConfigured := False\<rparr>)
             | Inr (Some ws) \<Rightarrow>
                 (Inr True, logInfo ConnectedToUpdates (s1\<lparr>eventListener := Some ws\<rparr>))))"

text \<open>
  The handlers registered on the socket at lines 255-275. They act on whatever socket
  \<open>eventListener\<close> holds when they run. \<open>eventHeartbeatTimer\<close> is the delay, in
  milliseconds, of the heartbeat timer that is pending, if one is.

  \<open>heartbeatEventListener\<close>, lines 575-586, handles \<open>message\<close>, \<open>open\<close> and \<open>ping\<close>: it
  clears the pending timer and sets a new one.
\<close>

definition heartbeatEventListener :: "settings \<Rightarrow> ProtectApi \<Rightarrow> ProtectApi" where
  "heartbeatEventListener cfg s =
     s\<lparr>eventHeartbeatTimer := Some (PROTECT_EVENTS_HEARTBEAT_INTERVAL cfg * 1000)\<rparr>"

text \<open>The callback of the heartbeat timer, lines 581-585, run when the timer expires.\<close>

definition heartbeatExpired :: "ProtectApi \<Rightarrow> ProtectApi" where
  "heartbeatExpired s =
     s\<lparr>terminated := (case eventListener s of None \<Rightarrow> terminated s
                      | Some ws \<Rightarrow> terminated s @ [ws]),
       eventListener := None,
       eventListenerConfigured := False,
       eventHeartbeatTimer := None\<rparr>"

text \<open>The handler of \<open>close\<close>, lines 258-262.\<close>

definition listenerClosed :: "ProtectApi \<Rightarrow> ProtectApi" where
  "listenerClosed s = s\<lparr>eventHeartbeatTimer := None\<rparr>"

text \<open>
  The handler of \<open>error\<close>, lines 264-275, given the error's message. A connection that
  cannot be established is reported here, in a turn after \<open>launchUpdatesListener\<close> has
  returned.
\<close>

definition listenerFailed :: "string \<Rightarrow> ProtectApi \<Rightarrow> ProtectApi" where
  "listenerFailed msg s =
     (let s1 = (if msg \<noteq> ''WebSocket was closed before the connection was established''
                then logError (ListenerError msg) s else s)
      in s1\<lparr>terminated := (case eventListener s1 of None \<Rightarrow> terminated s1
                          | Some ws \<Rightarrow> terminated s1 @ [ws]),
            eventListener := None,
            eventListenerConfigured := False\<rparr>)"

subsection \<open>Bootstrap and the device list\<close>

text \<open>
  \<open>bootstrapProtect\<close>, lines 166-218. \<open>data?.cameras\<close> is read off the decoded body;
  a body that is not a bootstrap object has no camera list. On a first run, line 207
  reads \<open>data.nvr.host\<close> without a guard, after \<open>this.bootstrap\<close> has been assigned: a
  payload without \<open>nvr\<close> throws a TypeError there.
\<close>

definition camerasOf :: "json option \<Rightarrow> ProtectCameraConfig list option" where
  "camerasOf data = (case data of Some (JBootstrap b) \<Rightarrow> cameras b | _ \<Rightarrow> None)"

definition bootstrapOf :: "json option \<Rightarrow> ProtectNvrBootstrap option" where
  "bootstrapOf data = (case data of Some (JBootstrap b) \<Rightarrow> Some b | _ \<Rightarrow> None)"

definition nvrOf :: "json option \<Rightarrow> ProtectNvrConfig option" where
  "nvrOf data = (case data of Some (JBootstrap b) \<Rightarrow> nvr b | _ \<Rightarrow> None)"

definition bootstrapProtect :: "settings \<Rightarrow> env \<Rightarrow> ProtectApi \<Rightarrow> (exn + bool) \<times> ProtectApi" where
  "bootstrapProtect cfg e s =
     (case login cfg e s of
        (False, s1) \<Rightarrow> (Inr False, s1)
      | (True, s1) \<Rightarrow>
         (case fetch cfg e (bootstrapUrl s1) ''GET'' None True True s1 of
            (resp, s2) \<Rightarrow>
              if \<not> respOk resp
              then (Inr False, clearLoginCredentials (logError UnableToRetrieveNvrConfiguration s2))
              else
                (let data = (case resp of None \<Rightarrow> None | Some r \<Rightarrow> body r);
                     s3 = (if data = None then logError UnableToParseResponse s2 else s2)
                 in if camerasOf data = None
                    then (Inr False,
                          clearLoginCredentials (logError UnableToRetrieveCameraInformation s3))
                    else
                      (let firstRun = (bootstrap s3 = None);
                           s4 = s3\<lparr>bootstrap := bootstrapOf data\<rparr>
                       in if firstRun \<and> nvrOf data = None then (Inl TypeError, s4)
                          else
                            (let s5 = (if firstRun then logInfo ConnectedToController s4 else s4)
                             in case checkAdminUserStatus firstRun s5 of
                                  (Inl err, s6) \<Rightarrow> (Inl err, s6)
                                | (Inr _, s6) \<Rightarrow> launchUpdatesListener cfg e s6)))))"

text \<open>
  \<open>refreshDevices\<close>, lines 286-336. New managed devices are logged; removed devices go
  to the \<open>debug\<close> callback only.
\<close>

definition refreshDevices :: "settings \<Rightarrow> env \<Rightarrow> ProtectApi \<Rightarrow> (exn + bool) \<times> ProtectApi" where
  "refreshDevices cfg e s =
     (case bootstrapProtect cfg e s of
        (Inl err, s1) \<Rightarrow> (Inl err, s1)
      | (Inr False, s1) \<Rightarrow> (Inr False, s1)
      | (Inr True, s1) \<Rightarrow>
         (let newDeviceList = (case bootstrap s1 of None \<Rightarrow> None | Some b \<Rightarrow> cameras b);
              known = (\<lambda>d. case Cameras s1 of None \<Rightarrow> False
                            | Some cs \<Rightarrow> list_ex (\<lambda>x. mac x = mac d) cs);
              discovered = (case newDeviceList of None \<Rightarrow> []
                            | Some ds \<Rightarrow> filter (\<lambda>d. \<not> known d \<and> isManaged d) ds);
              s2 = s1\<lparr>log := log s1 @ map (\<lambda>d. Info (Discovered (mac d))) discovered\<rparr>
          in (Inr True, s2\<lparr>Cameras := newDeviceList\<rparr>)))"

subsection \<open>Camera updates\<close>

text \<open>\<open>checkCameraState\<close>, lines 396-413.\<close>

definition checkCameraState ::
  "settings \<Rightarrow> env \<Rightarrow> ProtectCameraConfig \<Rightarrow> ProtectApi \<Rightarrow> bool \<times> ProtectApi" where
  "checkCameraState cfg e device s =
     (case login cfg e s of
        (False, s1) \<Rightarrow> (False, s1)
      | (True, s1) \<Rightarrow>
          if \<not> isAdminUser s1 then (False, s1)
          else if modelKey device \<noteq> ''camera'' then (False, s1)
          else (True, s1))"

text \<open>
  \<open>updateChannels\<close>, lines 416-449. Its \<open>fetch\<close> runs with \<open>decodeResponse = false\<close>.
  The \<open>response.json()\<close> of line 448 is not inside a \<open>try\<close>: a body that is not JSON
  rejects the promise the method returned.
\<close>

definition updateChannels ::
  "settings \<Rightarrow> env \<Rightarrow> ProtectCameraConfig \<Rightarrow> ProtectApi \<Rightarrow> (exn + json option) \<times> ProtectApi" where
  "updateChannels cfg e device s =
     (case checkCameraState cfg e device s of
        (False, s1) \<Rightarrow> (Inr None, s1)
      | (True, s1) \<Rightarrow>
         (case fetch cfg e (camerasUrl s1 @ ''/'' @ cameraId device) ''PATCH''
                 (Some (ChannelsBody (channels device))) True False s1 of
            (resp, s2) \<Rightarrow>
              if \<not> respOk resp
              then
                (let s3 = s2\<lparr>apiErrorCount := apiErrorCount s2 + 1\<rparr>
                 in (Inr (Some (JCamera device)),
                     if map_option status resp = Some 403
                     then logError InsufficientPrivilegesRtsp s3
                     else logError (UnableToEnableRtsp (map_option status resp)) s3))
              else
                (let s3 = s2\<lparr>apiErrorCount := 0, apiLastSuccess := clock s2\<rparr>
                 in case (case resp of None \<Rightarrow> None | Some r \<Rightarrow> body r) of
                      None \<Rightarrow> (Inl InvalidJson, s3)
                    | Some j \<Rightarrow> (Inr (Some j), s3))))"

text \<open>
  \<open>enableRtsp\<close>, lines 452-469. The source rewrites the channel list of the caller's
  device object in place; here the rewritten device is passed on.
\<close>

definition enableRtsp ::
  "settings \<Rightarrow> env \<Rightarrow> ProtectCameraConfig \<Rightarrow> ProtectApi \<Rightarrow> (exn + json option) \<times> ProtectApi" where
  "enableRtsp cfg e device s =
     (case checkCameraState cfg e device s of
        (False, s1) \<Rightarrow> (Inr None, s1)
      | (True, s1) \<Rightarrow>
          if \<not> (case channels device of None \<Rightarrow> False
                 | Some cs \<Rightarrow> list_ex (\<lambda>channel. \<not> isRtspEnabled channel) cs)
          then (Inr (Some (JCamera device)), s1)
          else updateChannels cfg e
                 (device\<lparr>channels :=
                    map_option (map (\<lambda>channel. channel\<lparr>isRtspEnabled := True\<rparr>)) (channels device)\<rparr>)
                 s1)"

text \<open>
  \<open>updateCamera\<close>, lines 472-504; the payload is opaque. As in \<open>updateChannels\<close>, the
  \<open>response.json()\<close> of line 503 is outside any \<open>try\<close>.
\<close>

definition updateCamera ::
  "settings \<Rightarrow> env \<Rightarrow> ProtectCameraConfig option \<Rightarrow> string \<Rightarrow> ProtectApi
   \<Rightarrow> (exn + json option) \<times> ProtectApi" where
  "updateCamera cfg e device payload s =
     (case device of
        None \<Rightarrow> (Inr None, s)
      | Some d \<Rightarrow>
         (case login cfg e s of
            (False, s1) \<Rightarrow> (Inr None, s1)
          | (True, s1) \<Rightarrow>
              if \<not> isAdminUser s1 then (Inr None, s1)
              else
                (case fetch cfg e (camerasUrl s1 @ ''/'' @ cameraId d) ''PATCH''
                        (Some (PayloadBody payload)) True True s1 of
                   (resp, s2) \<Rightarrow>
                     if \<not> respOk resp
                     then (Inr None, logError (UnableToConfigureCamera (map_option status resp)) s2)
                     else (case (case resp of None \<Rightarrow> None | Some r \<Rightarrow> body r) of
                             None \<Rightarrow> (Inl InvalidJson, s2)
                           | Some j \<Rightarrow> (Inr (Some j), s2)))))"

subsection \<open>The constructor\<close>

text \<open>Lines 64-74. The clock, the requests sent and the log start empty, and no heartbeat
  timer is pending.\<close>

definition newProtectApi :: "string \<Rightarrow> string \<Rightarrow> string \<Rightarrow> ProtectApi" where
  "newProtectApi address user pass =
     clearLoginCredentials
       \<lparr>apiErrorCount = 0, apiLastSuccess = 0, bootstrap = None, Cameras = None,
        eventListener = None, eventListenerConfigured = False, eventHeartbeatTimer = None,
        headers = Map.empty,
        isAdminUser = False, loggedIn = False, loginAge = 0, nvrAddress = address,
        password = pass, username = user, clock = 0, sent = [], terminated = [], log = []\<rparr>"

subsection \<open>The pending-login latch\<close>

text \<open>
  \<open>login\<close>, lines 156-163, under interleaving. The body of \<open>login()\<close> is synchronous:
  it runs in one turn of the event loop. What happens around it is a sequence of events:
  \<^item> \<open>CallsLogin\<close>: some task calls \<open>login()\<close>. If \<open>pendingLogin\<close> is unset, a run of
    \<open>loginWrapped\<close> is started, its promise is stored in \<open>pendingLogin\<close> and the
    \<open>finally\<close> callback is registered on it; in both cases the caller is handed
    \<open>pendingLogin\<close>.
  \<^item> \<open>Settles p b\<close>: the promise of run \<open>p\<close> settles with outcome \<open>b\<close>. A promise
    settles once, and only a started run has one.
  \<^item> \<open>Finally p\<close>: the callback registered on the promise of run \<open>p\<close> runs, after the
    promise has settled and once: \<open>pendingLogin = undefined\<close>.
  Runs are numbered in the order they start, and a promise is named by its run.
  \<open>handed\<close> lists the promise each caller received, in call order.
\<close>

record latch =
  pendingLogin :: "nat option"
  runs :: nat
  settled :: "nat \<rightharpoonup> bool"
  finalised :: "nat list"
  handed :: "nat list"

datatype event = CallsLogin | Settles nat bool | Finally nat

definition latch0 :: latch where
  "latch0 = \<lparr>pendingLogin = None, runs = 0, settled = Map.empty, finalised = [], handed = []\<rparr>"

fun step :: "latch \<Rightarrow> event \<Rightarrow> latch" where
  "step l CallsLogin =
     (case pendingLogin l of
        None \<Rightarrow> l\<lparr>pendingLogin := Some (runs l), runs := runs l + 1, handed := handed l @ [runs l]\<rparr>
      | Some p \<Rightarrow> l\<lparr>handed := handed l @ [p]\<rparr>)"
| "step l (Settles p b) =
     (if p < runs l \<and> settled l p = None then l\<lparr>settled := (settled l)(p \<mapsto> b)\<rparr> else l)"
| "step l (Finally p) =
     (if settled l p \<noteq> None \<and> p \<notin> set (finalised l)
      then l\<lparr>pendingLogin := None, finalised := p # finalised l\<rparr> else l)"

text \<open>The runs of \<open>loginWrapped\<close> in flight: started and not yet settled.\<close>

definition inFlight :: "latch \<Rightarrow> nat list" where
  "inFlight l = filter (\<lambda>p. settled l p = None) [0..<runs l]"

text \<open>
  What holds of the latch after any sequence of events: only started runs have settled,
  only settled runs have had their callback run, every started run has had its callback
  run or is the one \<open>pendingLogin\<close> names, and \<open>pendingLogin\<close> names a started run
  whose callback has not run.
\<close>

definition latchInv :: "latch \<Rightarrow> bool" where
  "latchInv l \<longleftrightarrow>
     (\<forall>p. settled l p \<noteq> None \<longrightarrow> p < runs l)
   \<and> (\<forall>p \<in> set (finalised l). settled l p \<noteq> None)
   \<and> (\<forall>p < runs l. p \<in> set (finalised l) \<or> pendingLogin l = Some p)
   \<and> (\<forall>p. pendingLogin l = Some p \<longrightarrow> p < runs l \<and> p \<notin> set (finalised l))"

subsection \<open>Sample inputs\<close>

definition sampleSettings :: settings where
  "sampleSettings = \<lparr>PROTECT_API_ERROR_LIMIT = 10, PROTECT_API_RETRY_INTERVAL = 300,
           PROTECT_API_TIMEOUT = 7, PROTECT_EVENTS_HEARTBEAT_INTERVAL = 10,
           PROTECT_LOGIN_REFRESH_INTERVAL = 1800\<rparr>"

definition replyWith :: "int \<Rightarrow> (string \<rightharpoonup> string) \<Rightarrow> json option \<Rightarrow> net_reply" where
  "replyWith code hs b =
     \<lparr>elapsed = 20, outcome = Responded \<lparr>status = code, respHeaders = hs, body = b\<rparr>\<rparr>"

text \<open>
  A socket constructor: it throws for an address with a space in it, which cannot be
  parsed, and otherwise yields socket 1, whatever becomes of the connection.
\<close>

definition socketFor :: "string \<Rightarrow> string \<Rightarrow> string + websocket option" where
  "socketFor url cookie =
     (if CHR '' '' \<in> set url then Inl ''Invalid URL'' else Inr (Some 1))"

text \<open>A server that answers every request with the same status and body, no headers.\<close>

definition serverAnswering :: "int \<Rightarrow> json option \<Rightarrow> env" where
  "serverAnswering code b = \<lparr>net = (\<lambda>k req. replyWith code Map.empty b), wsNew = socketFor\<rparr>"

text \<open>A server that cannot be reached.\<close>

definition serverDown :: env where
  "serverDown =
     \<lparr>net = (\<lambda>k req. \<lparr>elapsed = 20, outcome = Threw (FetchError ''ECONNREFUSED'' ''refused'')\<rparr>),
      wsNew = socketFor\<rparr>"

definition sampleNvr :: ProtectApi where
  "sampleNvr = newProtectApi ''nvr.local'' ''user'' ''secret''"

text \<open>The same instance with a session: logged in at time 1000, token and cookie held.\<close>

definition sampleSession :: ProtectApi where
  "sampleSession =
     sampleNvr\<lparr>loggedIn := True, loginAge := 1000, clock := 5000,
               headers := [''Content-Type'' \<mapsto> ''application/json'',
                           ''X-CSRF-Token'' \<mapsto> ''token'', ''Cookie'' \<mapsto> ''cookie'']\<rparr>"

subsection \<open>Observations\<close>

text \<open>
  The session as the rest of the code sees it, and the error budget of the throttle.
\<close>

definition session ::
  "ProtectApi \<Rightarrow> bool \<times> (string \<rightharpoonup> string) \<times> int \<times> bool \<times> ProtectNvrBootstrap option
     \<times> websocket option \<times> bool \<times> websocket list" where
  "session s = (loggedIn s, headers s, loginAge s, isAdminUser s, bootstrap s,
                eventListener s, eventListenerConfigured s, terminated s)"

definition budget :: "ProtectApi \<Rightarrow> int \<times> int" where
  "budget s = (apiErrorCount s, apiLastSuccess s)"

text \<open>
  The permission list that \<open>checkAdminUserStatus\<close> scans: that of the user whose id is
  \<open>authUserId\<close>, if the bootstrap, its user list, that user and the list are there.
\<close>

definition authPermissions :: "ProtectApi \<Rightarrow> string list option" where
  "authPermissions s =
     (case bootstrap s of
        None \<Rightarrow> None
      | Some b \<Rightarrow>
         (case users b of
            None \<Rightarrow> None
          | Some us \<Rightarrow>
             (case find (\<lambda>x. userId x = authUserId b) us of
                None \<Rightarrow> None
              | Some user \<Rightarrow> allPermissions user)))"

text \<open>
  An entry that grants write access to cameras, in the words of the specification: its
  first colon-separated field is \<open>camera\<close>, and it has a second colon-separated field
  that, split on commas, contains \<open>write\<close>.
\<close>

definition grantsCameraWrite :: "string \<Rightarrow> bool" where
  "grantsCameraWrite entry =
     (case split_on CHR '':'' entry of
        p0 # p1 # _ \<Rightarrow> p0 = ''camera'' \<and> ''write'' \<in> set (split_on CHR '','' p1)
      | _ \<Rightarrow> False)"

text \<open>Two throttled instances, stamped at time 5000 with a retry interval of 300 seconds:
  one millisecond before the end of the window, and exactly at its end.\<close>

definition throttledInWindow :: ProtectApi where
  "throttledInWindow = sampleSession\<lparr>apiErrorCount := 11, apiLastSuccess := 5000, clock := 304999\<rparr>"

definition throttledAtWindowEnd :: ProtectApi where
  "throttledAtWindowEnd = sampleSession\<lparr>apiErrorCount := 11, apiLastSuccess := 5000, clock := 305000\<rparr>"

definition sampleNvrConfig :: ProtectNvrConfig where
  "sampleNvrConfig = \<lparr>nvrName = ''NVR'', nvrType = ''UDM-Pro'', nvrHost = ''192.168.1.1'',
                      nvrMac = ''AA:00''\<rparr>"

text \<open>A session whose bootstrap holds one user, the authenticated one, with the given
  permission list.\<close>

definition withPermissions :: "string list \<Rightarrow> ProtectApi" where
  "withPermissions perms =
     sampleSession\<lparr>bootstrap := Some \<lparr>cameras = Some [],
        users = Some [\<lparr>userId = ''u1'', allPermissions = Some perms\<rparr>],
        authUserId = ''u1'', lastUpdateId = Some ''cursor'', nvr = Some sampleNvrConfig\<rparr>\<rparr>"

text \<open>A camera with one channel that has RTSP off, and a session of an administrator.\<close>

definition sampleCamera :: ProtectCameraConfig where
  "sampleCamera = \<lparr>cameraId = ''cam1'', mac = ''AA:BB'', cameraName = ''Door'', modelKey = ''camera'',
                    isManaged = True,
                    channels = Some [\<lparr>channelId = 0, isRtspEnabled = False\<rparr>]\<rparr>"

definition adminSession :: ProtectApi where
  "adminSession = sampleSession\<lparr>isAdminUser := True\<rparr>"

text \<open>A bootstrap payload whose authenticated user has the single permission \<open>camera\<close>.\<close>

definition bareCameraBootstrap :: json where
  "bareCameraBootstrap = JBootstrap \<lparr>cameras = Some [sampleCamera],
        users = Some [\<lparr>userId = ''u1'', allPermissions = Some [''camera'']\<rparr>],
        authUserId = ''u1'', lastUpdateId = Some ''cursor'', nvr = Some sampleNvrConfig\<rparr>"

text \<open>A session with a listener recorded, long past the login refresh interval.\<close>

definition expiredWithListener :: ProtectApi where
  "expiredWithListener = sampleSession\<lparr>eventListener := Some 7, clock := 5000000\<rparr>"

text \<open>A session whose NVR address cannot be parsed as part of a URL.\<close>

definition unparsableAddress :: ProtectApi where
  "unparsableAddress = sampleSession\<lparr>nvrAddress := ''bad host''\<rparr>"

text \<open>A bootstrap payload whose authenticated user may only read cameras.\<close>

definition readOnlyBootstrap :: ProtectNvrBootstrap where
  "readOnlyBootstrap = \<lparr>cameras = Some [sampleCamera],
        users = Some [\<lparr>userId = ''u1'', allPermissions = Some [''camera:read:*'']\<rparr>],
        authUserId = ''u1'', lastUpdateId = Some ''cursor'', nvr = Some sampleNvrConfig\<rparr>"

text \<open>
  A server for a renewal of the session: it answers the token probe, then the login,
  and every later request with the read-only bootstrap.
\<close>

definition renewingServer :: env where
  "renewingServer =
     \<lparr>net = (\<lambda>k req.
         if k = 0 then replyWith 200 [''X-CSRF-Token'' \<mapsto> ''token1''] None
         else if k = 1
         then replyWith 200 [''X-CSRF-Token'' \<mapsto> ''token2'', ''Set-Cookie'' \<mapsto> ''cookie2''] None
         else replyWith 200 Map.empty (Some (JBootstrap readOnlyBootstrap))),
      wsNew = socketFor\<rparr>"

text \<open>
  Two instances after a first successful bootstrap that found an administrator: one
  past the login refresh interval, one still fresh.
\<close>

definition renewalDue :: ProtectApi where
  "renewalDue = (withPermissions [''camera:write:*''])\<lparr>isAdminUser := True, clock := 5000000\<rparr>"

definition demotedSession :: ProtectApi where
  "demotedSession = (withPermissions [''camera:write:*''])\<lparr>isAdminUser := True\<rparr>"

section \<open>Properties\<close>

lemmas sample_defs = sampleSettings_def sampleSession_def sampleNvr_def newProtectApi_def
  clearLoginCredentials_def serverAnswering_def serverDown_def replyWith_def

subsection \<open>The throttle\<close>

lemma fetch_below_limit:
  assumes "apiErrorCount t < PROTECT_API_ERROR_LIMIT cfg"
  shows "fetch cfg e url method rbody logErrors decodeResponse t =
         fetchAttempt e url method rbody logErrors decodeResponse t"
  using assms by (simp add: fetch_def)

lemma fetch_in_window:
  assumes "PROTECT_API_ERROR_LIMIT cfg < apiErrorCount t"
    and "clock t < apiLastSuccess t + PROTECT_API_RETRY_INTERVAL cfg * 1000"
  shows "fetch cfg e url method rbody logErrors decodeResponse t = (None, t)"
  using assms by (simp add: fetch_def)

lemma fetch_after_window:
  assumes "PROTECT_API_ERROR_LIMIT cfg < apiErrorCount t"
    and "apiLastSuccess t + PROTECT_API_RETRY_INTERVAL cfg * 1000 \<le> clock t"
  shows "fetch cfg e url method rbody logErrors decodeResponse t =
         fetchAttempt e url method rbody logErrors decodeResponse
            (t\<lparr>log := log t @ [Info ResumingConnectivity], apiErrorCount := 0\<rparr>)"
  using assms by (simp add: fetch_def logInfo_def)

lemma sent_fetchAttempt:
  "sent (snd (fetchAttempt e url method rbody logErrors decodeResponse s)) =
     sent s @ [\<lparr>reqUrl = url, reqMethod = method, reqBody = rbody, reqHeaders = headers s\<rparr>]"
  by (simp add: fetchAttempt_def Let_def logError_def split: net_outcome.splits fetch_error.splits)

text \<open>
  C1. A call of \<open>fetch\<close> made when the error counter equals the error limit returns
  \<open>null\<close>, hands nothing to the transport, and stamps \<open>apiLastSuccess\<close> with the current
  time (the counter moves one past the limit). The retry window is anchored there: any
  later call that finds the counter past the limit and that stamp in place, before the
  stamp plus the retry interval, returns \<open>null\<close> and leaves the instance, the stamp
  included, as it was.
\<close>

theorem fetch_at_error_limit:
  assumes "apiErrorCount s = PROTECT_API_ERROR_LIMIT cfg"
  shows "fetch cfg e url method rbody logErrors decodeResponse s =
           (None, s\<lparr>log := log s @ [Info (ThrottlingApiCalls (PROTECT_API_ERROR_LIMIT cfg))],
                    apiErrorCount := PROTECT_API_ERROR_LIMIT cfg + 1,
                    apiLastSuccess := clock s\<rparr>)
         \<and> sent (snd (fetch cfg e url method rbody logErrors decodeResponse s)) = sent s
         \<and> apiLastSuccess (snd (fetch cfg e url method rbody logErrors decodeResponse s)) = clock s
         \<and> (\<forall>t url' method' rbody' logErrors' decodeResponse'.
              PROTECT_API_ERROR_LIMIT cfg < apiErrorCount t
              \<and> apiLastSuccess t = clock s
              \<and> clock t < clock s + PROTECT_API_RETRY_INTERVAL cfg * 1000
              \<longrightarrow> fetch cfg e url' method' rbody' logErrors' decodeResponse' t = (None, t))"
proof -
  have stamped: "fetch cfg e url method rbody logErrors decodeResponse s =
           (None, s\<lparr>log := log s @ [Info (ThrottlingApiCalls (PROTECT_API_ERROR_LIMIT cfg))],
                    apiErrorCount := PROTECT_API_ERROR_LIMIT cfg + 1,
                    apiLastSuccess := clock s\<rparr>)"
    using assms by (simp add: fetch_def logInfo_def)
  have later: "fetch cfg e url' method' rbody' logErrors' decodeResponse' t = (None, t)"
    if "PROTECT_API_ERROR_LIMIT cfg < apiErrorCount t" and "apiLastSuccess t = clock s"
      and "clock t < clock s + PROTECT_API_RETRY_INTERVAL cfg * 1000"
    for t url' method' rbody' logErrors' decodeResponse'
    using that by (intro fetch_in_window) simp_all
  from stamped later show ?thesis by simp
qed

theorem fetch_at_error_limit_witness:
  "apiErrorCount (sampleSession\<lparr>apiErrorCount := 10\<rparr>) = PROTECT_API_ERROR_LIMIT sampleSettings
   \<and> fst (fetch sampleSettings serverDown ''https://nvr.local'' ''GET'' None True True
            (sampleSession\<lparr>apiErrorCount := 10\<rparr>)) = None
   \<and> sent (snd (fetch sampleSettings serverDown ''https://nvr.local'' ''GET'' None True True
            (sampleSession\<lparr>apiErrorCount := 10\<rparr>))) = []
   \<and> apiLastSuccess (snd (fetch sampleSettings serverDown ''https://nvr.local'' ''GET'' None True True
            (sampleSession\<lparr>apiErrorCount := 10\<rparr>))) = 5000"
proof -
  have limit: "apiErrorCount (sampleSession\<lparr>apiErrorCount := 10\<rparr>)
                 = PROTECT_API_ERROR_LIMIT sampleSettings"
    by (simp add: sampleSettings_def)
  have start: "sent sampleSession = [] \<and> clock sampleSession = 5000"
    by (simp add: sampleSession_def sampleNvr_def newProtectApi_def clearLoginCredentials_def)
  from fetch_at_error_limit [OF limit, of serverDown "''https://nvr.local''" "''GET''" None True True]
  show ?thesis using limit start by simp
qed

text \<open>
  The boundary of the retry window. With the counter past the limit, the stamp at 5000
  and a retry interval of 300 s, a call at time 305000 is not later than stamp plus
  interval, and yet it is let through: a request is sent and the response returned.
\<close>

theorem fetch_attempted_at_window_end:
  "PROTECT_API_ERROR_LIMIT sampleSettings < apiErrorCount throttledAtWindowEnd
   \<and> \<not> (clock throttledAtWindowEnd
           > apiLastSuccess throttledAtWindowEnd + PROTECT_API_RETRY_INTERVAL sampleSettings * 1000)
   \<and> fst (fetch sampleSettings (serverAnswering 200 (Some JOther)) ''https://nvr.local'' ''GET'' None
             True True throttledAtWindowEnd) \<noteq> None
   \<and> length (sent (snd (fetch sampleSettings (serverAnswering 200 (Some JOther)) ''https://nvr.local''
             ''GET'' None True True throttledAtWindowEnd))) = 1"
  by (simp add: throttledAtWindowEnd_def sample_defs fetch_def fetchAttempt_def logInfo_def ok_def)

text \<open>
  C2, amended at the boundary. While the counter is past the limit, a call of \<open>fetch\<close>
  made before \<open>apiLastSuccess + PROTECT_API_RETRY_INTERVAL * 1000\<close> returns \<open>null\<close>,
  sends nothing and changes nothing. The first call made at or after that time (the
  comparison is not strict) logs the resumption, resets the counter to zero, and then
  performs the request: the call is the attempt run from the instance with the counter
  at zero, and one request is added to those sent.
\<close>

theorem fetch_past_error_limit:
  assumes "PROTECT_API_ERROR_LIMIT cfg < apiErrorCount s"
  shows "(clock s < apiLastSuccess s + PROTECT_API_RETRY_INTERVAL cfg * 1000 \<longrightarrow>
            fetch cfg e url method rbody logErrors decodeResponse s = (None, s))
       \<and> (apiLastSuccess s + PROTECT_API_RETRY_INTERVAL cfg * 1000 \<le> clock s \<longrightarrow>
            fetch cfg e url method rbody logErrors decodeResponse s =
              fetchAttempt e url method rbody logErrors decodeResponse
                (s\<lparr>log := log s @ [Info ResumingConnectivity], apiErrorCount := 0\<rparr>)
          \<and> sent (snd (fetch cfg e url method rbody logErrors decodeResponse s)) =
              sent s @ [\<lparr>reqUrl = url, reqMethod = method, reqBody = rbody, reqHeaders = headers s\<rparr>])"
proof (intro conjI impI)
  assume "clock s < apiLastSuccess s + PROTECT_API_RETRY_INTERVAL cfg * 1000"
  with assms show "fetch cfg e url method rbody logErrors decodeResponse s = (None, s)"
    by (rule fetch_in_window)
next
  assume over: "apiLastSuccess s + PROTECT_API_RETRY_INTERVAL cfg * 1000 \<le> clock s"
  from assms over
  show resumed: "fetch cfg e url method rbody logErrors decodeResponse s =
              fetchAttempt e url method rbody logErrors decodeResponse
                (s\<lparr>log := log s @ [Info ResumingConnectivity], apiErrorCount := 0\<rparr>)"
    by (rule fetch_after_window)
  show "sent (snd (fetch cfg e url method rbody logErrors decodeResponse s)) =
              sent s @ [\<lparr>reqUrl = url, reqMethod = method, reqBody = rbody, reqHeaders = headers s\<rparr>]"
    by (simp add: resumed sent_fetchAttempt)
qed

theorem fetch_past_error_limit_witness:
  "PROTECT_API_ERROR_LIMIT sampleSettings < apiErrorCount throttledInWindow
   \<and> clock throttledInWindow
        < apiLastSuccess throttledInWindow + PROTECT_API_RETRY_INTERVAL sampleSettings * 1000
   \<and> fetch sampleSettings serverDown ''https://nvr.local'' ''GET'' None True True throttledInWindow
        = (None, throttledInWindow)
   \<and> PROTECT_API_ERROR_LIMIT sampleSettings < apiErrorCount throttledAtWindowEnd
   \<and> apiLastSuccess throttledAtWindowEnd + PROTECT_API_RETRY_INTERVAL sampleSettings * 1000
        \<le> clock throttledAtWindowEnd
   \<and> length (sent (snd (fetch sampleSettings serverDown ''https://nvr.local'' ''GET'' None True True
                          throttledAtWindowEnd))) = 1
   \<and> apiErrorCount (snd (fetch sampleSettings serverDown ''https://nvr.local'' ''GET'' None True True
                          throttledAtWindowEnd)) = 1"
proof -
  have inside: "PROTECT_API_ERROR_LIMIT sampleSettings < apiErrorCount throttledInWindow"
    "clock throttledInWindow
        < apiLastSuccess throttledInWindow + PROTECT_API_RETRY_INTERVAL sampleSettings * 1000"
    by (simp_all add: throttledInWindow_def sampleSettings_def)
  have atEnd: "PROTECT_API_ERROR_LIMIT sampleSettings < apiErrorCount throttledAtWindowEnd"
    "apiLastSuccess throttledAtWindowEnd + PROTECT_API_RETRY_INTERVAL sampleSettings * 1000
        \<le> clock throttledAtWindowEnd"
    by (simp_all add: throttledAtWindowEnd_def sampleSettings_def)
  have none: "sent throttledAtWindowEnd = []"
    by (simp add: throttledAtWindowEnd_def sample_defs)
  have counted: "apiErrorCount (snd (fetchAttempt serverDown ''https://nvr.local'' ''GET'' None True True
       (throttledAtWindowEnd\<lparr>log := log throttledAtWindowEnd @ [Info ResumingConnectivity],
                             apiErrorCount := 0\<rparr>))) = 1"
    by (simp add: fetchAttempt_def serverDown_def logError_def)
  note atWindowEnd =
    fetch_past_error_limit [OF atEnd(1), of serverDown "''https://nvr.local''" "''GET''" None True True]
  have blocked: "fetch sampleSettings serverDown ''https://nvr.local'' ''GET'' None True True
                   throttledInWindow = (None, throttledInWindow)"
    using fetch_past_error_limit [OF inside(1), of serverDown "''https://nvr.local''" "''GET''" None
            True True] inside(2) by blast
  have "sent (snd (fetch sampleSettings serverDown ''https://nvr.local'' ''GET'' None True True
                     throttledAtWindowEnd)) =
        sent throttledAtWindowEnd @ [\<lparr>reqUrl = ''https://nvr.local'', reqMethod = ''GET'',
                                       reqBody = None, reqHeaders = headers throttledAtWindowEnd\<rparr>]"
    using atWindowEnd atEnd(2) by blast
  then have one: "length (sent (snd (fetch sampleSettings serverDown ''https://nvr.local'' ''GET'' None
                     True True throttledAtWindowEnd))) = 1"
    using none by simp
  have "fetch sampleSettings serverDown ''https://nvr.local'' ''GET'' None True True
          throttledAtWindowEnd =
        fetchAttempt serverDown ''https://nvr.local'' ''GET'' None True True
          (throttledAtWindowEnd\<lparr>log := log throttledAtWindowEnd @ [Info ResumingConnectivity],
                                apiErrorCount := 0\<rparr>)"
    using atWindowEnd atEnd(2) by blast
  then have fresh: "apiErrorCount (snd (fetch sampleSettings serverDown ''https://nvr.local'' ''GET''
                      None True True throttledAtWindowEnd)) = 1"
    using counted by simp
  from inside atEnd blocked one fresh show ?thesis by blast
qed

subsection \<open>Classification of outcomes\<close>

lemma session_fetchAttempt:
  "session (snd (fetchAttempt e url method rbody logErrors decodeResponse s)) = session s"
  by (simp add: fetchAttempt_def Let_def logError_def session_def
           split: net_outcome.splits fetch_error.splits)

lemma session_fetch:
  "session (snd (fetch cfg e url method rbody logErrors decodeResponse s)) = session s"
  by (simp add: fetch_def Let_def logInfo_def session_fetchAttempt) (simp add: session_def)

lemma fetchAttempt_401:
  assumes "outcome (net e (length (sent s))
             \<lparr>reqUrl = url, reqMethod = method, reqBody = rbody, reqHeaders = headers s\<rparr>) = Responded r"
    and "status r = 401"
  shows "fetchAttempt e url method rbody logErrors True s =
           (None, s\<lparr>sent := sent s @ [\<lparr>reqUrl = url, reqMethod = method, reqBody = rbody,
                                        reqHeaders = headers s\<rparr>],
                    clock := clock s + elapsed (net e (length (sent s))
                       \<lparr>reqUrl = url, reqMethod = method, reqBody = rbody, reqHeaders = headers s\<rparr>),
                    log := log s @ [Error InvalidLoginCredentials],
                    apiErrorCount := apiErrorCount s + 1\<rparr>)"
  using assms by (simp add: fetchAttempt_def Let_def logError_def)

lemma budget_fetchAttempt:
  "budget (snd (fetchAttempt e url method rbody logErrors decodeResponse s)) =
     (let reply = net e (length (sent s))
                    \<lparr>reqUrl = url, reqMethod = method, reqBody = rbody, reqHeaders = headers s\<rparr>
      in case outcome reply of
           Threw err \<Rightarrow> (apiErrorCount s + 1, apiLastSuccess s)
         | Responded r \<Rightarrow>
             if \<not> decodeResponse then (apiErrorCount s, apiLastSuccess s)
             else if ok r then (0, clock s + elapsed reply)
             else (apiErrorCount s + 1, apiLastSuccess s))"
  by (simp add: fetchAttempt_def Let_def logError_def budget_def ok_def
           split: net_outcome.splits fetch_error.splits)

text \<open>
  A 401 with a session in place: \<open>fetch\<close> returns \<open>null\<close>, and the instance is still
  logged in, with its token and cookie.
\<close>

theorem fetch_401_keeps_session:
  "fst (fetch sampleSettings (serverAnswering 401 None) ''https://nvr.local/api'' ''GET'' None True True
          sampleSession) = None
   \<and> loggedIn (snd (fetch sampleSettings (serverAnswering 401 None) ''https://nvr.local/api'' ''GET''
          None True True sampleSession))
   \<and> headers (snd (fetch sampleSettings (serverAnswering 401 None) ''https://nvr.local/api'' ''GET''
          None True True sampleSession)) ''Cookie'' = Some ''cookie''
   \<and> headers (snd (fetch sampleSettings (serverAnswering 401 None) ''https://nvr.local/api'' ''GET''
          None True True sampleSession)) ''X-CSRF-Token'' = Some ''token''"
  by (simp add: sample_defs fetch_def fetchAttempt_def logError_def)

text \<open>
  C3, amended. A call of \<open>fetch\<close> with response decoding that reaches the transport
  (the counter is below the limit, or past it with the retry window over) and receives
  status 401 returns \<open>null\<close>, logs the invalid-credentials error and counts one error.
  The session is not touched by \<open>fetch\<close>: logged-in flag, headers, login age, admin
  flag, bootstrap and listener are as before the call.
\<close>

theorem fetch_401:
  assumes "apiErrorCount s < PROTECT_API_ERROR_LIMIT cfg
           \<or> (PROTECT_API_ERROR_LIMIT cfg < apiErrorCount s
               \<and> apiLastSuccess s + PROTECT_API_RETRY_INTERVAL cfg * 1000 \<le> clock s)"
    and "outcome (net e (length (sent s))
             \<lparr>reqUrl = url, reqMethod = method, reqBody = rbody, reqHeaders = headers s\<rparr>) = Responded r"
    and "status r = 401"
  shows "fst (fetch cfg e url method rbody logErrors True s) = None
       \<and> log (snd (fetch cfg e url method rbody logErrors True s)) =
           log s @ (if apiErrorCount s < PROTECT_API_ERROR_LIMIT cfg then []
                    else [Info ResumingConnectivity]) @ [Error InvalidLoginCredentials]
       \<and> apiErrorCount (snd (fetch cfg e url method rbody logErrors True s)) =
           (if apiErrorCount s < PROTECT_API_ERROR_LIMIT cfg then apiErrorCount s else 0) + 1
       \<and> session (snd (fetch cfg e url method rbody logErrors True s)) = session s"
proof (cases "apiErrorCount s < PROTECT_API_ERROR_LIMIT cfg")
  case True
  then have "fetch cfg e url method rbody logErrors True s =
             fetchAttempt e url method rbody logErrors True s"
    by (rule fetch_below_limit)
  with True fetchAttempt_401 [OF assms(2,3)] show ?thesis
    by (simp add: session_def)
next
  case False
  with assms(1) have past: "PROTECT_API_ERROR_LIMIT cfg < apiErrorCount s"
    and over: "apiLastSuccess s + PROTECT_API_RETRY_INTERVAL cfg * 1000 \<le> clock s"
    by simp_all
  let ?s0 = "s\<lparr>log := log s @ [Info ResumingConnectivity], apiErrorCount := 0\<rparr>"
  have resumed: "fetch cfg e url method rbody logErrors True s =
                 fetchAttempt e url method rbody logErrors True ?s0"
    using past over by (rule fetch_after_window)
  have "outcome (net e (length (sent ?s0))
             \<lparr>reqUrl = url, reqMethod = method, reqBody = rbody, reqHeaders = headers ?s0\<rparr>) = Responded r"
    using assms(2) by simp
  from fetchAttempt_401 [OF this assms(3)] resumed False show ?thesis
    by (simp add: session_def)
qed

theorem fetch_401_witness:
  "apiErrorCount sampleSession < PROTECT_API_ERROR_LIMIT sampleSettings
   \<and> fst (fetch sampleSettings (serverAnswering 401 None) ''https://nvr.local/api'' ''GET'' None
             True True sampleSession) = None
   \<and> apiErrorCount (snd (fetch sampleSettings (serverAnswering 401 None) ''https://nvr.local/api''
             ''GET'' None True True sampleSession)) = 1
   \<and> session (snd (fetch sampleSettings (serverAnswering 401 None) ''https://nvr.local/api''
             ''GET'' None True True sampleSession)) = session sampleSession"
proof -
  have below: "apiErrorCount sampleSession < PROTECT_API_ERROR_LIMIT sampleSettings"
    by (simp add: sample_defs)
  have answer: "outcome (net (serverAnswering 401 None) (length (sent sampleSession))
           \<lparr>reqUrl = ''https://nvr.local/api'', reqMethod = ''GET'', reqBody = None,
              reqHeaders = headers sampleSession\<rparr>)
         = Responded \<lparr>status = 401, respHeaders = Map.empty, body = None\<rparr>"
    by (simp add: serverAnswering_def replyWith_def)
  have zero: "apiErrorCount sampleSession = 0"
    by (simp add: sample_defs)
  from fetch_401 [OF disjI1 [OF below] answer, of True] below zero show ?thesis
    by simp
qed

text \<open>
  A status 500 received with \<open>decodeResponse = false\<close>: the response goes back to the
  caller, and neither the error counter nor the time of last success moves.
\<close>

theorem fetch_undecoded_keeps_budget:
  "map_option status (fst (fetch sampleSettings (serverAnswering 500 None) ''https://nvr.local/api''
        ''PATCH'' None True False sampleSession)) = Some 500
   \<and> apiErrorCount sampleSession = 0
   \<and> apiErrorCount (snd (fetch sampleSettings (serverAnswering 500 None) ''https://nvr.local/api''
        ''PATCH'' None True False sampleSession)) = 0
   \<and> apiLastSuccess (snd (fetch sampleSettings (serverAnswering 500 None) ''https://nvr.local/api''
        ''PATCH'' None True False sampleSession)) = apiLastSuccess sampleSession"
  by (simp add: sample_defs fetch_def fetchAttempt_def)

text \<open>
  C4, amended. A call of \<open>fetch\<close> that reaches the transport updates the error budget
  once, as a function of the outcome: a thrown transport error or timeout adds one to
  the counter, whatever \<open>decodeResponse\<close> is; with decoding, a status that is not 2xx
  adds one to the counter, and a 2xx sets the counter to zero and the time of last
  success to the time the response arrived. Without decoding, a response of any status
  leaves the budget as it was. (\<open>base\<close> is the counter the attempt starts from: zero
  when the call resumes after the retry window.)
\<close>

theorem fetch_budget:
  assumes "apiErrorCount s < PROTECT_API_ERROR_LIMIT cfg
           \<or> (PROTECT_API_ERROR_LIMIT cfg < apiErrorCount s
               \<and> apiLastSuccess s + PROTECT_API_RETRY_INTERVAL cfg * 1000 \<le> clock s)"
  shows "budget (snd (fetch cfg e url method rbody logErrors decodeResponse s)) =
     (let base = (if apiErrorCount s < PROTECT_API_ERROR_LIMIT cfg then apiErrorCount s else 0);
          reply = net e (length (sent s))
                    \<lparr>reqUrl = url, reqMethod = method, reqBody = rbody, reqHeaders = headers s\<rparr>
      in case outcome reply of
           Threw err \<Rightarrow> (base + 1, apiLastSuccess s)
         | Responded r \<Rightarrow>
             if \<not> decodeResponse then (base, apiLastSuccess s)
             else if ok r then (0, clock s + elapsed reply)
             else (base + 1, apiLastSuccess s))"
proof (cases "apiErrorCount s < PROTECT_API_ERROR_LIMIT cfg")
  case True
  then have "fetch cfg e url method rbody logErrors decodeResponse s =
             fetchAttempt e url method rbody logErrors decodeResponse s"
    by (rule fetch_below_limit)
  with True show ?thesis by (simp add: budget_fetchAttempt Let_def)
next
  case False
  with assms have past: "PROTECT_API_ERROR_LIMIT cfg < apiErrorCount s"
    and over: "apiLastSuccess s + PROTECT_API_RETRY_INTERVAL cfg * 1000 \<le> clock s"
    by simp_all
  have "fetch cfg e url method rbody logErrors decodeResponse s =
          fetchAttempt e url method rbody logErrors decodeResponse
            (s\<lparr>log := log s @ [Info ResumingConnectivity], apiErrorCount := 0\<rparr>)"
    using past over by (rule fetch_after_window)
  with False show ?thesis by (simp add: budget_fetchAttempt Let_def split: net_outcome.splits)
qed

theorem fetch_budget_witness:
  "apiErrorCount sampleSession < PROTECT_API_ERROR_LIMIT sampleSettings
   \<and> budget (snd (fetch sampleSettings serverDown ''https://nvr.local/api'' ''GET'' None True True
                     sampleSession)) = (1, 0)
   \<and> budget (snd (fetch sampleSettings (serverAnswering 200 None) ''https://nvr.local/api'' ''GET''
                     None True True sampleSession)) = (0, 5020)
   \<and> budget (snd (fetch sampleSettings (serverAnswering 200 None) ''https://nvr.local/api'' ''GET''
                     None True False sampleSession)) = (0, 0)"
proof -
  have below: "apiErrorCount sampleSession < PROTECT_API_ERROR_LIMIT sampleSettings"
    by (simp add: sample_defs)
  have start: "apiErrorCount sampleSession = 0" "apiLastSuccess sampleSession = 0"
    "clock sampleSession = 5000"
    by (simp_all add: sample_defs)
  have down: "outcome (net serverDown k req) = Threw (FetchError ''ECONNREFUSED'' ''refused'')"
    for k req by (simp add: serverDown_def)
  have up: "net (serverAnswering 200 None) k req =
              \<lparr>elapsed = 20, outcome = Responded \<lparr>status = 200, respHeaders = Map.empty, body = None\<rparr>\<rparr>"
    for k req by (simp add: serverAnswering_def replyWith_def)
  from fetch_budget [OF disjI1 [OF below], of serverDown "''https://nvr.local/api''" "''GET''" None True True]
    fetch_budget [OF disjI1 [OF below], of "serverAnswering 200 None" "''https://nvr.local/api''" "''GET''" None True True]
    fetch_budget [OF disjI1 [OF below], of "serverAnswering 200 None" "''https://nvr.local/api''" "''GET''" None True False]
  show ?thesis using below start by (simp add: down up ok_def)
qed

subsection \<open>The permission scan\<close>

lemma split_on_not_Nil: "split_on c s \<noteq> []"
  by (induction s) (auto split: list.splits)

lemma split_on_no_separator: "c \<notin> set s \<Longrightarrow> split_on c s = [s]"
  by (induction s) auto

lemma split_on_separator: "c \<in> set s \<Longrightarrow> \<exists>p0 p1 ps. split_on c s = p0 # p1 # ps"
proof (induction s)
  case Nil
  then show ?case by simp
next
  case (Cons x xs)
  show ?case
  proof (cases "x = c")
    case True
    then show ?thesis
      using split_on_not_Nil [of c xs] by (cases "split_on c xs") auto
  next
    case False
    with Cons.prems have "c \<in> set xs" by simp
    from Cons.IH [OF this] False show ?thesis by auto
  qed
qed

lemma split_on_single: "split_on c s = [p] \<longleftrightarrow> c \<notin> set s \<and> p = s"
proof (cases "c \<in> set s")
  case True
  from split_on_separator [OF this] show ?thesis using True by auto
next
  case False
  then show ?thesis by (auto simp: split_on_no_separator)
qed

text \<open>One turn of the loop: a bare \<open>camera\<close> throws, a granting entry ends the scan,
  any other entry is passed over.\<close>

lemma scanPermissions_Cons:
  "scanPermissions (entry # rest) =
     (if entry = ''camera'' then Inl TypeError
      else if grantsCameraWrite entry then Inr True
      else scanPermissions rest)"
proof (cases "split_on CHR '':'' entry")
  case Nil
  then show ?thesis using split_on_not_Nil by blast
next
  case (Cons p0 ps)
  show ?thesis
  proof (cases ps)
    case Nil
    with Cons have one: "split_on CHR '':'' entry = [p0]" by simp
    then have "p0 = entry" by (simp add: split_on_single)
    with one show ?thesis by (auto simp: grantsCameraWrite_def)
  next
    case (Cons p1 pss)
    with \<open>split_on CHR '':'' entry = p0 # ps\<close>
    have two: "split_on CHR '':'' entry = p0 # p1 # pss" by simp
    then have "entry \<noteq> ''camera''" by auto
    with two show ?thesis by (auto simp: grantsCameraWrite_def)
  qed
qed

lemma scanPermissions_result:
  "scanPermissions perms = Inr r \<Longrightarrow> r = list_ex grantsCameraWrite perms"
proof (induction perms)
  case Nil
  then show ?case by simp
next
  case (Cons entry rest)
  then show ?case
    by (simp add: scanPermissions_Cons del: scanPermissions.simps split: if_splits)
qed

lemma scanPermissions_throws:
  "scanPermissions perms = Inl err \<longleftrightarrow>
     err = TypeError \<and> (\<exists>pre post. perms = pre @ ''camera'' # post \<and> \<not> list_ex grantsCameraWrite pre)"
proof (induction perms)
  case Nil
  then show ?case by simp
next
  case (Cons entry rest)
  show ?case
  proof (cases "entry = ''camera''")
    case True
    have "entry # rest = [] @ ''camera'' # rest \<and> \<not> list_ex grantsCameraWrite []"
      using True by simp
    then have "\<exists>pre post. entry # rest = pre @ ''camera'' # post \<and> \<not> list_ex grantsCameraWrite pre"
      by blast
    with True show ?thesis by (simp add: scanPermissions_Cons del: scanPermissions.simps) blast
  next
    case notBare: False
    show ?thesis
    proof (cases "grantsCameraWrite entry")
      case True
      have "\<not> (\<exists>pre post. entry # rest = pre @ ''camera'' # post \<and> \<not> list_ex grantsCameraWrite pre)"
        using True notBare by (auto simp: Cons_eq_append_conv)
      with True notBare show ?thesis by (simp add: scanPermissions_Cons del: scanPermissions.simps)
    next
      case False
      have "(\<exists>pre post. entry # rest = pre @ ''camera'' # post \<and> \<not> list_ex grantsCameraWrite pre)
            \<longleftrightarrow> (\<exists>pre post. rest = pre @ ''camera'' # post \<and> \<not> list_ex grantsCameraWrite pre)"
        (is "?L \<longleftrightarrow> ?R")
      proof
        assume ?L
        then obtain pre post where eq: "entry # rest = pre @ ''camera'' # post"
          and no: "\<not> list_ex grantsCameraWrite pre" by blast
        from eq notBare obtain pre' where "pre = entry # pre'" "rest = pre' @ ''camera'' # post"
          by (auto simp: Cons_eq_append_conv)
        with no show ?R by auto
      next
        assume ?R
        then obtain pre post where "rest = pre @ ''camera'' # post"
          and "\<not> list_ex grantsCameraWrite pre" by blast
        with False have "entry # rest = (entry # pre) @ ''camera'' # post
                         \<and> \<not> list_ex grantsCameraWrite (entry # pre)" by simp
        then show ?L by blast
      qed
      with False notBare Cons.IH show ?thesis
        by (simp add: scanPermissions_Cons del: scanPermissions.simps)
    qed
  qed
qed

lemma checkAdminUserStatus_scan:
  assumes "authPermissions s = Some perms"
  shows "checkAdminUserStatus firstRun s =
           (case scanPermissions perms of
              Inl err \<Rightarrow> (Inl err, s)
            | Inr newAdminStatus \<Rightarrow>
                (Inr True,
                 if firstRun \<and> \<not> newAdminStatus
                 then s\<lparr>isAdminUser := newAdminStatus, log := log s @ [Info AdministratorRoleRequired]\<rparr>
                 else if \<not> firstRun \<and> isAdminUser s \<noteq> newAdminStatus
                 then s\<lparr>isAdminUser := newAdminStatus, log := log s @ [Info (RoleChange newAdminStatus)]\<rparr>
                 else s\<lparr>isAdminUser := newAdminStatus\<rparr>))"
  using assms
  by (auto simp: checkAdminUserStatus_def authPermissions_def Let_def logInfo_def
           split: option.splits sum.splits)

lemma checkAdminUserStatus_undetermined:
  assumes "authPermissions s = None"
  shows "checkAdminUserStatus firstRun s = (Inr False, s)"
  using assms
  by (auto simp: checkAdminUserStatus_def authPermissions_def Let_def split: option.splits)

text \<open>
  A bare \<open>camera\<close> entry that the scan never reaches: the entry before it grants write,
  the loop stops there, and the call returns normally with the user an administrator.
\<close>

theorem checkAdminUserStatus_bare_camera_after_grant:
  "''camera'' \<in> set [''camera:write:*'', ''camera'']
   \<and> authPermissions (withPermissions [''camera:write:*'', ''camera''])
        = Some [''camera:write:*'', ''camera'']
   \<and> fst (checkAdminUserStatus True (withPermissions [''camera:write:*'', ''camera''])) = Inr True
   \<and> isAdminUser (snd (checkAdminUserStatus True (withPermissions [''camera:write:*'', ''camera''])))"
  by (simp add: checkAdminUserStatus_def withPermissions_def sample_defs authPermissions_def)

text \<open>
  C10, amended. \<open>checkAdminUserStatus\<close> is not total over permission strings. It throws
  a TypeError exactly when the permission list holds an entry equal to the bare string
  \<open>camera\<close> with no entry before it that grants camera write access (such an entry ends
  the scan first). It throws nothing else, and when it throws the instance is unchanged.
  One entry on its own makes the scan throw iff its first colon-separated field is
  \<open>camera\<close> and it contains no colon: the scan is safe for the entries whose first field
  differs from \<open>camera\<close> or that contain a colon.
\<close>

theorem checkAdminUserStatus_throws:
  assumes "authPermissions s = Some perms"
  shows "(fst (checkAdminUserStatus firstRun s) = Inl TypeError \<longleftrightarrow>
            (\<exists>pre post. perms = pre @ ''camera'' # post
                         \<and> \<not> (\<exists>entry \<in> set pre. grantsCameraWrite entry)))
       \<and> (\<forall>err. fst (checkAdminUserStatus firstRun s) = Inl err \<longrightarrow>
                 err = TypeError \<and> snd (checkAdminUserStatus firstRun s) = s)
       \<and> (\<forall>entry. scanPermissions [entry] = Inl TypeError \<longleftrightarrow>
                 hd (split_on CHR '':'' entry) = ''camera'' \<and> CHR '':'' \<notin> set entry)"
proof -
  note run = checkAdminUserStatus_scan [OF assms, of firstRun]
  have thrown: "fst (checkAdminUserStatus firstRun s) = Inl err \<longleftrightarrow> scanPermissions perms = Inl err"
    for err
    by (simp add: run split: sum.splits)
  have first: "fst (checkAdminUserStatus firstRun s) = Inl TypeError \<longleftrightarrow>
            (\<exists>pre post. perms = pre @ ''camera'' # post
                         \<and> \<not> (\<exists>entry \<in> set pre. grantsCameraWrite entry))"
    by (simp add: thrown scanPermissions_throws list_ex_iff)
  have second: "err = TypeError \<and> snd (checkAdminUserStatus firstRun s) = s"
    if "fst (checkAdminUserStatus firstRun s) = Inl err" for err
  proof -
    from that have scan: "scanPermissions perms = Inl err" by (simp add: thrown)
    then have "err = TypeError" by (simp add: scanPermissions_throws)
    moreover from scan have "snd (checkAdminUserStatus firstRun s) = s" by (simp add: run)
    ultimately show ?thesis by simp
  qed
  have third: "scanPermissions [entry] = Inl TypeError \<longleftrightarrow>
                 hd (split_on CHR '':'' entry) = ''camera'' \<and> CHR '':'' \<notin> set entry" for entry
  proof (cases "CHR '':'' \<in> set entry")
    case True
    then have "entry \<noteq> ''camera''" by auto
    with True show ?thesis
      by (subst scanPermissions_Cons) simp
  next
    case False
    then have "split_on CHR '':'' entry = [entry]" by (rule split_on_no_separator)
    with False show ?thesis
      by (subst scanPermissions_Cons) simp
  qed
  from first second third show ?thesis by blast
qed

theorem checkAdminUserStatus_throws_witness:
  "authPermissions (withPermissions [''nvr:read:*'', ''camera'']) = Some [''nvr:read:*'', ''camera'']
   \<and> fst (checkAdminUserStatus True (withPermissions [''nvr:read:*'', ''camera''])) = Inl TypeError
   \<and> snd (checkAdminUserStatus True (withPermissions [''nvr:read:*'', ''camera'']))
        = withPermissions [''nvr:read:*'', ''camera'']"
proof -
  let ?s = "withPermissions [''nvr:read:*'', ''camera'']"
  have perms: "authPermissions ?s = Some [''nvr:read:*'', ''camera'']"
    by (simp add: withPermissions_def sample_defs authPermissions_def)
  have "\<not> grantsCameraWrite ''nvr:read:*''"
    by (simp add: grantsCameraWrite_def)
  then have "[''nvr:read:*'', ''camera''] = [''nvr:read:*''] @ ''camera'' # []
             \<and> \<not> (\<exists>entry \<in> set [''nvr:read:*'']. grantsCameraWrite entry)"
    by simp
  then have reached: "\<exists>pre post. [''nvr:read:*'', ''camera''] = pre @ ''camera'' # post
             \<and> \<not> (\<exists>entry \<in> set pre. grantsCameraWrite entry)"
    by blast
  note throws = checkAdminUserStatus_throws [OF perms, of True]
  from throws reached have thrown: "fst (checkAdminUserStatus True ?s) = Inl TypeError"
    by blast
  with throws have "snd (checkAdminUserStatus True ?s) = ?s" by blast
  with perms thrown show ?thesis by blast
qed

subsection \<open>Sessions and the bootstrap\<close>

lemma loginWrapped_fresh:
  assumes "loggedIn s" and "clock s \<le> loginAge s + PROTECT_LOGIN_REFRESH_INTERVAL cfg * 1000"
  shows "loginWrapped cfg e s = (True, s)"
  using assms by (simp add: loginWrapped_def)

lemma login_fresh:
  assumes "loggedIn s" and "clock s \<le> loginAge s + PROTECT_LOGIN_REFRESH_INTERVAL cfg * 1000"
  shows "login cfg e s = (True, s)"
  using assms by (simp add: login_def loginWrapped_fresh)

lemma sampleSession_fresh:
  "loggedIn sampleSession"
  "clock sampleSession \<le> loginAge sampleSession + PROTECT_LOGIN_REFRESH_INTERVAL sampleSettings * 1000"
  by (simp_all add: sample_defs)

lemma adminSession_fresh:
  "loggedIn adminSession"
  "clock adminSession \<le> loginAge adminSession + PROTECT_LOGIN_REFRESH_INTERVAL sampleSettings * 1000"
  by (simp_all add: adminSession_def sample_defs)

lemma fetch_adminSession_200:
  "fetch sampleSettings (serverAnswering 200 b) url method rbody logErrors True adminSession =
     (Some \<lparr>status = 200, respHeaders = Map.empty, body = b\<rparr>,
      adminSession\<lparr>sent := [\<lparr>reqUrl = url, reqMethod = method, reqBody = rbody,
                                reqHeaders = headers adminSession\<rparr>],
                    clock := 5020, apiLastSuccess := 5020, apiErrorCount := 0\<rparr>)"
  by (simp add: fetch_def fetchAttempt_def adminSession_def sample_defs ok_def)

lemma loginWrapped_failed:
  assumes "loginWrapped cfg e s = (False, s1)"
  shows "eventListener s1 = None \<and> \<not> loggedIn s1"
  using assms
  by (auto simp: loginWrapped_def Let_def clearLoginCredentials_def
           split: if_splits prod.splits option.splits bool.splits)

lemma login_failed:
  assumes "login cfg e s = (False, s1)"
  shows "eventListener s1 = None \<and> \<not> loggedIn s1"
  using assms by (simp add: login_def loginWrapped_failed)




subsection \<open>Exceptions that leave the public operations\<close>

text \<open>
  C6. With an administrator's session and a server that answers 200 with a body that is
  not JSON, \<open>updateCamera\<close>, \<open>updateChannels\<close> and \<open>enableRtsp\<close> end with the
  exception of \<open>response.json()\<close> instead of a \<open>null\<close> or a device; \<open>refreshDevices\<close>
  ends with the TypeError of the permission scan when the authenticated user holds the
  permission \<open>camera\<close>. \<open>bootstrapProtect\<close>, which decodes inside \<open>try\<close>, turns the same
  undecodable body into \<open>false\<close>.
\<close>

theorem undecodable_body_throws:
  "fst (updateCamera sampleSettings (serverAnswering 200 None) (Some sampleCamera) ''{}'' adminSession)
     = Inl InvalidJson
   \<and> fst (updateChannels sampleSettings (serverAnswering 200 None) sampleCamera adminSession)
     = Inl InvalidJson
   \<and> fst (enableRtsp sampleSettings (serverAnswering 200 None) sampleCamera adminSession)
     = Inl InvalidJson
   \<and> fst (refreshDevices sampleSettings (serverAnswering 200 (Some bareCameraBootstrap)) adminSession)
     = Inl TypeError
   \<and> fst (bootstrapProtect sampleSettings (serverAnswering 200 None) adminSession) = Inr False"
proof -
  note fresh = login_fresh [OF adminSession_fresh, of e for e]
  have admin: "isAdminUser adminSession" by (simp add: adminSession_def)
  have camera: "modelKey sampleCamera = ''camera''" by (simp add: sampleCamera_def)
  have raw: "fetch sampleSettings (serverAnswering 200 b) url verb rbody logErrors False adminSession =
     (Some \<lparr>status = 200, respHeaders = Map.empty, body = b\<rparr>,
      adminSession\<lparr>sent := [\<lparr>reqUrl = url, reqMethod = verb, reqBody = rbody,
                                reqHeaders = headers adminSession\<rparr>],
                    clock := 5020\<rparr>)" for b url verb rbody logErrors
    by (simp add: fetch_def fetchAttempt_def adminSession_def sample_defs)
  have state: "checkCameraState sampleSettings e (sampleCamera\<lparr>channels := cs\<rparr>) adminSession
                 = (True, adminSession)" for e cs
    by (simp add: checkCameraState_def fresh admin camera)
  have channelsThrow: "fst (updateChannels sampleSettings (serverAnswering 200 None)
                              (sampleCamera\<lparr>channels := cs\<rparr>) adminSession) = Inl InvalidJson" for cs
    by (simp add: updateChannels_def state raw respOk_def ok_def)
  have a: "fst (updateCamera sampleSettings (serverAnswering 200 None) (Some sampleCamera) ''{}'' adminSession)
     = Inl InvalidJson"
    by (simp add: updateCamera_def fresh admin fetch_adminSession_200 respOk_def ok_def)
  have b: "fst (updateChannels sampleSettings (serverAnswering 200 None) sampleCamera adminSession)
     = Inl InvalidJson"
    using channelsThrow [of "channels sampleCamera"] by simp
  have c: "fst (enableRtsp sampleSettings (serverAnswering 200 None) sampleCamera adminSession)
     = Inl InvalidJson"
    using state [of "serverAnswering 200 None" "channels sampleCamera"]
    by (simp add: enableRtsp_def channelsThrow) (simp add: sampleCamera_def)
  have scan: "fst (checkAdminUserStatus firstRun
                (s\<lparr>bootstrap := bootstrapOf (Some bareCameraBootstrap)\<rparr>)) = Inl TypeError" for firstRun s
    by (simp add: checkAdminUserStatus_def bootstrapOf_def bareCameraBootstrap_def logInfo_def)
  have d: "fst (bootstrapProtect sampleSettings (serverAnswering 200 (Some bareCameraBootstrap)) adminSession)
     = Inl TypeError"
    by (simp add: bootstrapProtect_def fresh fetch_adminSession_200 respOk_def ok_def)
       (simp add: camerasOf_def bootstrapOf_def nvrOf_def bareCameraBootstrap_def
          checkAdminUserStatus_def logInfo_def adminSession_def sample_defs)
  then obtain s1 where "bootstrapProtect sampleSettings (serverAnswering 200 (Some bareCameraBootstrap))
                          adminSession = (Inl TypeError, s1)"
    by (cases "bootstrapProtect sampleSettings (serverAnswering 200 (Some bareCameraBootstrap))
                 adminSession") simp
  then have d': "fst (refreshDevices sampleSettings (serverAnswering 200 (Some bareCameraBootstrap)) adminSession)
     = Inl TypeError"
    by (simp add: refreshDevices_def)
  have e: "fst (bootstrapProtect sampleSettings (serverAnswering 200 None) adminSession) = Inr False"
    by (simp add: bootstrapProtect_def fresh fetch_adminSession_200 respOk_def ok_def camerasOf_def)
  from a b c d' e show ?thesis by simp
qed

subsection \<open>Opening the updates listener\<close>

text \<open>
  Two runs of \<open>launchUpdatesListener\<close>. With a listener recorded and the session past
  its refresh interval, the login inside the call clears the session, the listener with
  it, fails against an unreachable server, and the call returns \<open>false\<close>. With a fresh
  session, no listener, and an NVR that cannot be reached, the call returns \<open>true\<close>
  with the new socket recorded; the failure to connect comes later, as the socket's
  error event, and its handler clears the listener.
\<close>

theorem launchUpdatesListener_relogin_and_late_failure:
  "eventListener expiredWithListener = Some 7
   \<and> fst (launchUpdatesListener sampleSettings serverDown expiredWithListener) = Inr False
   \<and> eventListener (snd (launchUpdatesListener sampleSettings serverDown expiredWithListener)) = None
   \<and> eventListener sampleSession = None
   \<and> fst (launchUpdatesListener sampleSettings serverDown sampleSession) = Inr True
   \<and> eventListener (snd (launchUpdatesListener sampleSettings serverDown sampleSession)) = Some 1
   \<and> eventListener (listenerFailed ''connect ECONNREFUSED''
         (snd (launchUpdatesListener sampleSettings serverDown sampleSession))) = None"
proof -
  have expired: "login sampleSettings serverDown expiredWithListener =
     (False, clearLoginCredentials (clearLoginCredentials expiredWithListener)
               \<lparr>sent := [\<lparr>reqUrl = ''https://nvr.local'', reqMethod = ''GET'', reqBody = None,
                           reqHeaders = [''Content-Type'' \<mapsto> ''application/json'']\<rparr>],
                 clock := 5000020, apiErrorCount := 1, log := [Error ConnectionRefused]\<rparr>)"
    by (simp add: login_def loginWrapped_def acquireToken_def fetch_def fetchAttempt_def
          expiredWithListener_def sample_defs has_def logError_def)
  have a: "eventListener expiredWithListener = Some 7"
    by (simp add: expiredWithListener_def)
  have b: "fst (launchUpdatesListener sampleSettings serverDown expiredWithListener) = Inr False"
    "eventListener (snd (launchUpdatesListener sampleSettings serverDown expiredWithListener)) = None"
    by (simp_all add: launchUpdatesListener_def expired) (simp add: clearLoginCredentials_def)
  have c: "eventListener sampleSession = None"
    by (simp add: sample_defs)
  have d: "wsNew serverDown (updatesUrl sampleSession @ ''?'' @ updatesParams sampleSession)
             (cookieHeader sampleSession) = Inr (Some 1)"
    by (simp add: serverDown_def socketFor_def updatesUrl_def updatesParams_def sample_defs)
  have e: "launchUpdatesListener sampleSettings serverDown sampleSession =
             (Inr True, logInfo ConnectedToUpdates (sampleSession\<lparr>eventListener := Some 1\<rparr>))"
    using d by (simp add: launchUpdatesListener_def login_fresh [OF sampleSession_fresh] c)
  from a b c show ?thesis
    by (simp add: e logInfo_def listenerFailed_def logError_def)
qed

text \<open>
  C5, amended. \<open>launchUpdatesListener\<close> never lets an exception out. It logs in first:
  if the login fails the call returns \<open>false\<close>, and no listener is recorded any more.
  With a session that is logged in and not due for renewal and a listener recorded, the
  call is a no-op returning \<open>true\<close>; so it is whenever a listener is still recorded
  after the login. Otherwise the call constructs the socket, records it as the listener
  and returns \<open>true\<close>, before the connection is made: a connection that then fails is
  reported by the socket's error event, whose handler terminates that socket, clears
  the listener and logs the error (unless it is the error of closing before the
  connection was established). When instead the constructor throws, or yields no
  socket, no listener is recorded after the call; in the second case the call returns
  \<open>false\<close>.
\<close>

theorem launchUpdatesListener_outcomes:
  "(\<exists>b. fst (launchUpdatesListener cfg e s) = Inr b)
   \<and> (login cfg e s = (False, s1) \<longrightarrow>
        launchUpdatesListener cfg e s = (Inr False, s1) \<and> eventListener s1 = None)
   \<and> (loggedIn s \<and> clock s \<le> loginAge s + PROTECT_LOGIN_REFRESH_INTERVAL cfg * 1000
        \<and> eventListener s \<noteq> None \<longrightarrow>
        launchUpdatesListener cfg e s = (Inr True, s))
   \<and> (login cfg e s = (True, s1) \<and> eventListener s1 \<noteq> None \<longrightarrow>
        launchUpdatesListener cfg e s = (Inr True, s1))
   \<and> (login cfg e s = (True, s1) \<and> eventListener s1 = None
        \<and> wsNew e (updatesUrl s1 @ ''?'' @ updatesParams s1) (cookieHeader s1) = Inr (Some ws) \<longrightarrow>
        launchUpdatesListener cfg e s =
          (Inr True, logInfo ConnectedToUpdates (s1\<lparr>eventListener := Some ws\<rparr>))
        \<and> (\<forall>msg. eventListener (listenerFailed msg (snd (launchUpdatesListener cfg e s))) = None
                 \<and> \<not> eventListenerConfigured
                       (listenerFailed msg (snd (launchUpdatesListener cfg e s)))
                 \<and> terminated (listenerFailed msg (snd (launchUpdatesListener cfg e s)))
                     = terminated s1 @ [ws]
                 \<and> log (listenerFailed msg (snd (launchUpdatesListener cfg e s)))
                     = log s1 @ [Info ConnectedToUpdates] @
                       (if msg \<noteq> ''WebSocket was closed before the connection was established''
                        then [Error (ListenerError msg)] else [])))
   \<and> (login cfg e s = (True, s1) \<and> eventListener s1 = None
        \<and> (\<exists>err. wsNew e (updatesUrl s1 @ ''?'' @ updatesParams s1) (cookieHeader s1) = Inl err) \<longrightarrow>
        eventListener (snd (launchUpdatesListener cfg e s)) = None)
   \<and> (login cfg e s = (True, s1) \<and> eventListener s1 = None
        \<and> wsNew e (updatesUrl s1 @ ''?'' @ updatesParams s1) (cookieHeader s1) = Inr None \<longrightarrow>
        fst (launchUpdatesListener cfg e s) = Inr False
        \<and> eventListener (snd (launchUpdatesListener cfg e s)) = None)"
proof (intro conjI impI)
  show "\<exists>b. fst (launchUpdatesListener cfg e s) = Inr b"
    by (auto simp: launchUpdatesListener_def split: prod.splits bool.splits sum.splits option.splits)
next
  assume failed: "login cfg e s = (False, s1)"
  then show "launchUpdatesListener cfg e s = (Inr False, s1)"
    by (simp add: launchUpdatesListener_def)
  from failed show "eventListener s1 = None"
    by (simp add: login_failed)
next
  assume "loggedIn s \<and> clock s \<le> loginAge s + PROTECT_LOGIN_REFRESH_INTERVAL cfg * 1000
        \<and> eventListener s \<noteq> None"
  then have "login cfg e s = (True, s)" and "eventListener s \<noteq> None"
    by (simp_all add: login_fresh)
  then show "launchUpdatesListener cfg e s = (Inr True, s)"
    by (simp add: launchUpdatesListener_def)
next
  assume "login cfg e s = (True, s1) \<and> eventListener s1 \<noteq> None"
  then show "launchUpdatesListener cfg e s = (Inr True, s1)"
    by (simp add: launchUpdatesListener_def)
next
  assume opened: "login cfg e s = (True, s1) \<and> eventListener s1 = None
        \<and> wsNew e (updatesUrl s1 @ ''?'' @ updatesParams s1) (cookieHeader s1) = Inr (Some ws)"
  then show run: "launchUpdatesListener cfg e s =
          (Inr True, logInfo ConnectedToUpdates (s1\<lparr>eventListener := Some ws\<rparr>))"
    by (simp add: launchUpdatesListener_def)
  show "\<forall>msg. eventListener (listenerFailed msg (snd (launchUpdatesListener cfg e s))) = None
                 \<and> \<not> eventListenerConfigured
                       (listenerFailed msg (snd (launchUpdatesListener cfg e s)))
                 \<and> terminated (listenerFailed msg (snd (launchUpdatesListener cfg e s)))
                     = terminated s1 @ [ws]
                 \<and> log (listenerFailed msg (snd (launchUpdatesListener cfg e s)))
                     = log s1 @ [Info ConnectedToUpdates] @
                       (if msg \<noteq> ''WebSocket was closed before the connection was established''
                        then [Error (ListenerError msg)] else [])"
    by (simp add: run listenerFailed_def logInfo_def logError_def Let_def)
next
  assume "login cfg e s = (True, s1) \<and> eventListener s1 = None
        \<and> (\<exists>err. wsNew e (updatesUrl s1 @ ''?'' @ updatesParams s1) (cookieHeader s1) = Inl err)"
  then show "eventListener (snd (launchUpdatesListener cfg e s)) = None"
    by (auto simp: launchUpdatesListener_def logError_def)
next
  assume none: "login cfg e s = (True, s1) \<and> eventListener s1 = None
        \<and> wsNew e (updatesUrl s1 @ ''?'' @ updatesParams s1) (cookieHeader s1) = Inr None"
  then show "fst (launchUpdatesListener cfg e s) = Inr False"
    by (simp add: launchUpdatesListener_def)
  from none show "eventListener (snd (launchUpdatesListener cfg e s)) = None"
    by (simp add: launchUpdatesListener_def)
qed

theorem launchUpdatesListener_outcomes_witness:
  "launchUpdatesListener sampleSettings serverDown (sampleSession\<lparr>eventListener := Some 7\<rparr>)
     = (Inr True, sampleSession\<lparr>eventListener := Some 7\<rparr>)
   \<and> launchUpdatesListener sampleSettings serverDown sampleSession
     = (Inr True, logInfo ConnectedToUpdates (sampleSession\<lparr>eventListener := Some 1\<rparr>))
   \<and> eventListener (listenerFailed ''connect ECONNREFUSED''
        (snd (launchUpdatesListener sampleSettings serverDown sampleSession))) = None
   \<and> terminated (listenerFailed ''connect ECONNREFUSED''
        (snd (launchUpdatesListener sampleSettings serverDown sampleSession))) = [1]
   \<and> wsNew serverDown (updatesUrl unparsableAddress @ ''?'' @ updatesParams unparsableAddress)
        (cookieHeader unparsableAddress) = Inl ''Invalid URL''
   \<and> eventListener (snd (launchUpdatesListener sampleSettings serverDown unparsableAddress)) = None
   \<and> (\<exists>b. fst (launchUpdatesListener sampleSettings serverDown unparsableAddress) = Inr b)"
proof -
  let ?open = "sampleSession\<lparr>eventListener := Some 7\<rparr>"
  have fresh: "loggedIn ?open \<and> clock ?open \<le> loginAge ?open
                 + PROTECT_LOGIN_REFRESH_INTERVAL sampleSettings * 1000 \<and> eventListener ?open \<noteq> None"
    by (simp add: sample_defs)
  have noop: "launchUpdatesListener sampleSettings serverDown ?open = (Inr True, ?open)"
    using launchUpdatesListener_outcomes [of sampleSettings serverDown ?open ?open] fresh by blast
  have login: "login sampleSettings serverDown sampleSession = (True, sampleSession)"
    by (rule login_fresh [OF sampleSession_fresh])
  have closed: "eventListener sampleSession = None" "terminated sampleSession = []"
    by (simp_all add: sample_defs)
  have socket: "wsNew serverDown (updatesUrl sampleSession @ ''?'' @ updatesParams sampleSession)
                  (cookieHeader sampleSession) = Inr (Some 1)"
    by (simp add: serverDown_def socketFor_def updatesUrl_def updatesParams_def sample_defs)
  note opened = launchUpdatesListener_outcomes [of sampleSettings serverDown sampleSession sampleSession 1]
  from opened login closed(1) socket
  have run: "launchUpdatesListener sampleSettings serverDown sampleSession
     = (Inr True, logInfo ConnectedToUpdates (sampleSession\<lparr>eventListener := Some 1\<rparr>))"
    by blast
  from opened login closed(1) socket
  have late: "eventListener (listenerFailed ''connect ECONNREFUSED''
        (snd (launchUpdatesListener sampleSettings serverDown sampleSession))) = None
     \<and> terminated (listenerFailed ''connect ECONNREFUSED''
        (snd (launchUpdatesListener sampleSettings serverDown sampleSession)))
          = terminated sampleSession @ [1]"
    by blast
  have login': "login sampleSettings serverDown unparsableAddress = (True, unparsableAddress)"
    by (rule login_fresh) (simp_all add: unparsableAddress_def sample_defs)
  have closed': "eventListener unparsableAddress = None"
    by (simp add: unparsableAddress_def sample_defs)
  have throws: "wsNew serverDown (updatesUrl unparsableAddress @ ''?'' @ updatesParams unparsableAddress)
                  (cookieHeader unparsableAddress) = Inl ''Invalid URL''"
    by (simp add: serverDown_def socketFor_def updatesUrl_def unparsableAddress_def)
  note thrown = launchUpdatesListener_outcomes
                  [of sampleSettings serverDown unparsableAddress unparsableAddress]
  from thrown login' closed' throws
  have cleared: "eventListener (snd (launchUpdatesListener sampleSettings serverDown unparsableAddress))
                   = None"
    by blast
  from thrown
  have caught: "\<exists>b. fst (launchUpdatesListener sampleSettings serverDown unparsableAddress) = Inr b"
    by blast
  from noop run late closed(2) throws cleared caught show ?thesis by simp
qed

subsection \<open>The administrator status across bootstraps\<close>

lemma fetch_decoded_ok:
  assumes "fetch cfg e url verb rbody logErrors True s = (Some r, s')"
  shows "ok r"
  using assms
  by (auto simp: fetch_def fetchAttempt_def Let_def logInfo_def logError_def
           split: if_splits net_outcome.splits fetch_error.splits)

lemma fetch_keeps:
  assumes "fetch cfg e url verb rbody logErrors decodeResponse s = (resp, s1)"
  shows "bootstrap s1 = bootstrap s \<and> isAdminUser s1 = isAdminUser s"
  using session_fetch [of cfg e url verb rbody logErrors decodeResponse s] assms
  by (simp add: session_def)

lemma acquireToken_keeps:
  assumes "acquireToken cfg e s = (res, s1)"
  shows "bootstrap s1 = bootstrap s \<and> isAdminUser s1 = isAdminUser s"
  using assms
  by (auto simp: acquireToken_def split: if_splits prod.splits option.splits dest: fetch_keeps)

lemma login_after_expiry:
  assumes "loginAge s + PROTECT_LOGIN_REFRESH_INTERVAL cfg * 1000 < clock s"
  shows "bootstrap (snd (login cfg e s)) = None \<and> \<not> isAdminUser (snd (login cfg e s))"
proof -
  let ?s0 = "clearLoginCredentials s"
  have s0: "bootstrap ?s0 = None" "\<not> isAdminUser ?s0" "\<not> loggedIn ?s0"
    by (simp_all add: clearLoginCredentials_def)
  obtain tok s1 where a: "acquireToken cfg e ?s0 = (tok, s1)"
    by (cases "acquireToken cfg e ?s0")
  from acquireToken_keeps [OF a] s0 have s1: "bootstrap s1 = None" "\<not> isAdminUser s1"
    by simp_all
  obtain resp s2 where f: "fetch cfg e (authUrl s1) ''POST''
                          (Some (LoginBody (password s1) (username s1))) True True s1 = (resp, s2)"
    by (cases "fetch cfg e (authUrl s1) ''POST''
                          (Some (LoginBody (password s1) (username s1))) True True s1")
  from fetch_keeps [OF f] s1 have s2: "bootstrap s2 = None" "\<not> isAdminUser s2"
    by simp_all
  from assms a f s0 s1 s2 show ?thesis
    by (simp add: login_def loginWrapped_def Let_def clearLoginCredentials_def
             split: bool.splits option.splits)
qed

text \<open>
  Two runs. A permission list that contains \<open>camera:write,read:*\<close> behind a bare
  \<open>camera\<close>: the scan throws at the first entry and the user is not made an
  administrator. And a bootstrap after a renewal of the session: the instance held a
  bootstrap and an administrator, the login inside \<open>bootstrapProtect\<close> clears both
  because the session is past its refresh interval, and the user, now without write
  access, is reported with the notice of a first run, not as a role change.
\<close>

theorem checkAdminUserStatus_throw_and_renewal:
  "''camera:write,read:*'' \<in> set [''camera'', ''camera:write,read:*'']
   \<and> fst (checkAdminUserStatus False (withPermissions [''camera'', ''camera:write,read:*'']))
        = Inl TypeError
   \<and> \<not> isAdminUser (snd (checkAdminUserStatus False
                             (withPermissions [''camera'', ''camera:write,read:*''])))
   \<and> isAdminUser renewalDue
   \<and> bootstrap renewalDue \<noteq> None
   \<and> fst (bootstrapProtect sampleSettings renewingServer renewalDue) = Inr True
   \<and> \<not> isAdminUser (snd (bootstrapProtect sampleSettings renewingServer renewalDue))
   \<and> log (snd (bootstrapProtect sampleSettings renewingServer renewalDue))
        = [Info ConnectedToController, Info AdministratorRoleRequired, Info ConnectedToUpdates]"
proof -
  have thrown: "checkAdminUserStatus False (withPermissions [''camera'', ''camera:write,read:*''])
                  = (Inl TypeError, withPermissions [''camera'', ''camera:write,read:*''])"
    by (simp add: checkAdminUserStatus_def withPermissions_def sample_defs)
  have before: "\<not> isAdminUser (withPermissions [''camera'', ''camera:write,read:*''])"
    "isAdminUser renewalDue" "bootstrap renewalDue \<noteq> None"
    by (simp_all add: renewalDue_def withPermissions_def sample_defs)
  have run: "fst (bootstrapProtect sampleSettings renewingServer renewalDue) = Inr True
   \<and> \<not> isAdminUser (snd (bootstrapProtect sampleSettings renewingServer renewalDue))
   \<and> log (snd (bootstrapProtect sampleSettings renewingServer renewalDue))
        = [Info ConnectedToController, Info AdministratorRoleRequired, Info ConnectedToUpdates]"
    by code_simp
  from thrown before run show ?thesis by simp
qed

text \<open>
  C9, amended. \<open>checkAdminUserStatus\<close> returns \<open>false\<close> and changes nothing when the
  authenticated user or the permission list is missing. Otherwise it scans the list: if
  a bare \<open>camera\<close> is reached before any entry granting camera write access it throws
  and changes nothing; if not, it returns \<open>true\<close> and the user is an administrator
  iff some entry has first colon-separated field \<open>camera\<close> and a second field that,
  split on commas, contains \<open>write\<close> (\<open>camera:write,read:*\<close> is such an entry,
  \<open>camera:read:*\<close> is not). With \<open>firstRun\<close> the only thing logged is the notice that
  the Administrator role is required, when the user is not one; without it, a status
  that differs from the previous one is logged as a role change, and nothing else is.
  For a decoded payload with a camera list and an \<open>nvr\<close> record, \<open>bootstrapProtect\<close>
  passes \<open>firstRun\<close> as "no bootstrap is stored" at the time of the call: that holds on
  the first run, and again after every \<open>clearLoginCredentials\<close>,
  in particular after the login has renewed a session past its refresh interval, which
  also resets the status to non-administrator.
\<close>

theorem checkAdminUserStatus_total:
  "(authPermissions s = None \<longrightarrow> checkAdminUserStatus firstRun s = (Inr False, s))
   \<and> (authPermissions s = Some perms \<longrightarrow>
        checkAdminUserStatus firstRun s =
          (if \<exists>pre post. perms = pre @ ''camera'' # post
                          \<and> \<not> (\<exists>entry \<in> set pre. grantsCameraWrite entry)
           then (Inl TypeError, s)
           else (Inr True,
                 s\<lparr>isAdminUser := (\<exists>entry \<in> set perms. grantsCameraWrite entry),
                   log := log s @
                     (if firstRun
                      then (if \<exists>entry \<in> set perms. grantsCameraWrite entry then []
                            else [Info AdministratorRoleRequired])
                      else if (\<exists>entry \<in> set perms. grantsCameraWrite entry) \<noteq> isAdminUser s
                      then [Info (RoleChange (\<exists>entry \<in> set perms. grantsCameraWrite entry))]
                      else [])\<rparr>)))
   \<and> grantsCameraWrite ''camera:write,read:*''
   \<and> \<not> grantsCameraWrite ''camera:read:*''
   \<and> (login cfg e s = (True, s1)
        \<and> fetch cfg e (bootstrapUrl s1) ''GET'' None True True s1 = (Some r, s2)
        \<and> body r = Some (JBootstrap b) \<and> cameras b \<noteq> None \<and> nvr b \<noteq> None \<longrightarrow>
        bootstrapProtect cfg e s =
          (case checkAdminUserStatus (bootstrap s1 = None)
                  (if bootstrap s1 = None
                   then logInfo ConnectedToController (s2\<lparr>bootstrap := Some b\<rparr>)
                   else s2\<lparr>bootstrap := Some b\<rparr>) of
             (Inl err, s6) \<Rightarrow> (Inl err, s6)
           | (Inr x, s6) \<Rightarrow> launchUpdatesListener cfg e s6))
   \<and> bootstrap (clearLoginCredentials s) = None
   \<and> (loginAge s + PROTECT_LOGIN_REFRESH_INTERVAL cfg * 1000 < clock s \<longrightarrow>
        bootstrap (snd (login cfg e s)) = None \<and> \<not> isAdminUser (snd (login cfg e s)))"
proof (intro conjI impI)
  assume "authPermissions s = None"
  then show "checkAdminUserStatus firstRun s = (Inr False, s)"
    by (rule checkAdminUserStatus_undetermined)
next
  let ?admin = "\<exists>entry \<in> set perms. grantsCameraWrite entry"
  let ?reached = "\<exists>pre post. perms = pre @ ''camera'' # post
                          \<and> \<not> (\<exists>entry \<in> set pre. grantsCameraWrite entry)"
  assume perms: "authPermissions s = Some perms"
  note run = checkAdminUserStatus_scan [OF perms, of firstRun]
  show "checkAdminUserStatus firstRun s =
          (if ?reached then (Inl TypeError, s)
           else (Inr True,
                 s\<lparr>isAdminUser := ?admin,
                   log := log s @
                     (if firstRun
                      then (if ?admin then [] else [Info AdministratorRoleRequired])
                      else if ?admin \<noteq> isAdminUser s then [Info (RoleChange ?admin)]
                      else [])\<rparr>))"
  proof (cases "scanPermissions perms")
    case (Inl err)
    then have "err = TypeError" and "?reached"
      by (simp_all add: scanPermissions_throws list_ex_iff)
    with Inl run show ?thesis by simp
  next
    case (Inr newAdminStatus)
    from scanPermissions_result [OF this] have new: "newAdminStatus = ?admin"
      by (simp add: list_ex_iff)
    have "\<not> ?reached"
    proof
      assume ?reached
      then have "scanPermissions perms = Inl TypeError"
        by (simp add: scanPermissions_throws list_ex_iff)
      with Inr show False by simp
    qed
    with Inr run new show ?thesis by auto
  qed
next
  show "grantsCameraWrite ''camera:write,read:*''"
    by (simp add: grantsCameraWrite_def)
next
  show "\<not> grantsCameraWrite ''camera:read:*''"
    by (simp add: grantsCameraWrite_def)
next
  assume path: "login cfg e s = (True, s1)
        \<and> fetch cfg e (bootstrapUrl s1) ''GET'' None True True s1 = (Some r, s2)
        \<and> body r = Some (JBootstrap b) \<and> cameras b \<noteq> None \<and> nvr b \<noteq> None"
  then have fetched: "fetch cfg e (bootstrapUrl s1) ''GET'' None True True s1 = (Some r, s2)"
    by simp
  from fetch_decoded_ok [OF fetched] have "ok r" .
  moreover from fetch_keeps [OF fetched] have "bootstrap s2 = bootstrap s1" by simp
  ultimately show "bootstrapProtect cfg e s =
          (case checkAdminUserStatus (bootstrap s1 = None)
                  (if bootstrap s1 = None
                   then logInfo ConnectedToController (s2\<lparr>bootstrap := Some b\<rparr>)
                   else s2\<lparr>bootstrap := Some b\<rparr>) of
             (Inl err, s6) \<Rightarrow> (Inl err, s6)
           | (Inr x, s6) \<Rightarrow> launchUpdatesListener cfg e s6)"
    using path
    by (auto simp: bootstrapProtect_def respOk_def camerasOf_def bootstrapOf_def nvrOf_def Let_def)
next
  show "bootstrap (clearLoginCredentials s) = None"
    by (simp add: clearLoginCredentials_def)
next
  assume "loginAge s + PROTECT_LOGIN_REFRESH_INTERVAL cfg * 1000 < clock s"
  then have both: "bootstrap (snd (login cfg e s)) = None \<and> \<not> isAdminUser (snd (login cfg e s))"
    by (rule login_after_expiry)
  then show "bootstrap (snd (login cfg e s)) = None" by simp
  from both show "\<not> isAdminUser (snd (login cfg e s))" by simp
qed


theorem checkAdminUserStatus_total_witness:
  "checkAdminUserStatus False (withPermissions [''nvr:read:*'', ''camera:write,read:*''])
     = (Inr True, (withPermissions [''nvr:read:*'', ''camera:write,read:*''])
                     \<lparr>isAdminUser := True, log := [Info (RoleChange True)]\<rparr>)
   \<and> checkAdminUserStatus True (withPermissions [''camera:read:*''])
     = (Inr True, (withPermissions [''camera:read:*''])
                     \<lparr>isAdminUser := False, log := [Info AdministratorRoleRequired]\<rparr>)
   \<and> checkAdminUserStatus True sampleSession = (Inr False, sampleSession)
   \<and> log (snd (bootstrapProtect sampleSettings
                  (serverAnswering 200 (Some (JBootstrap readOnlyBootstrap))) demotedSession))
     = [Info (RoleChange False), Info ConnectedToUpdates]
   \<and> bootstrap (snd (login sampleSettings renewingServer renewalDue)) = None"
proof -
  let ?promoted = "withPermissions [''nvr:read:*'', ''camera:write,read:*'']"
  let ?reader = "withPermissions [''camera:read:*'']"
  let ?server = "serverAnswering 200 (Some (JBootstrap readOnlyBootstrap))"
  let ?r = "\<lparr>status = 200, respHeaders = Map.empty, body = Some (JBootstrap readOnlyBootstrap)\<rparr>"
  let ?s2 = "demotedSession\<lparr>sent := [\<lparr>reqUrl = bootstrapUrl demotedSession, reqMethod = ''GET'',
                                         reqBody = None, reqHeaders = headers demotedSession\<rparr>],
                             clock := 5020, apiLastSuccess := 5020, apiErrorCount := 0\<rparr>"
  have yes: "grantsCameraWrite ''camera:write,read:*''" and no: "\<not> grantsCameraWrite ''nvr:read:*''"
    and no': "\<not> grantsCameraWrite ''camera:read:*''"
    by (simp_all add: grantsCameraWrite_def)
  have lists: "authPermissions ?promoted = Some [''nvr:read:*'', ''camera:write,read:*'']"
    "authPermissions ?reader = Some [''camera:read:*'']"
    "authPermissions sampleSession = None"
    by (simp_all add: authPermissions_def withPermissions_def sample_defs)
  have starts: "\<not> isAdminUser ?promoted" "log ?promoted = []" "log ?reader = []"
    by (simp_all add: withPermissions_def sample_defs)
  have unreached: "\<not> (\<exists>pre post. [''nvr:read:*'', ''camera:write,read:*''] = pre @ ''camera'' # post
                          \<and> \<not> (\<exists>entry \<in> set pre. grantsCameraWrite entry))"
    "\<not> (\<exists>pre post. [''camera:read:*''] = pre @ ''camera'' # post
                          \<and> \<not> (\<exists>entry \<in> set pre. grantsCameraWrite entry))"
    by (auto simp: Cons_eq_append_conv)
  have a: "checkAdminUserStatus False ?promoted
             = (Inr True, ?promoted\<lparr>isAdminUser := True, log := [Info (RoleChange True)]\<rparr>)"
    using checkAdminUserStatus_total [of ?promoted False "[''nvr:read:*'', ''camera:write,read:*'']"]
      lists(1) unreached(1) yes no starts
    by simp
  have b: "checkAdminUserStatus True ?reader
             = (Inr True, ?reader\<lparr>isAdminUser := False, log := [Info AdministratorRoleRequired]\<rparr>)"
    using checkAdminUserStatus_total [of ?reader True "[''camera:read:*'']"]
      lists(2) unreached(2) no' starts
    by simp
  have c: "checkAdminUserStatus True sampleSession = (Inr False, sampleSession)"
    using checkAdminUserStatus_total [of sampleSession True] lists(3) by blast
  have fresh: "login sampleSettings ?server demotedSession = (True, demotedSession)"
    by (rule login_fresh) (simp_all add: demotedSession_def withPermissions_def sample_defs)
  have fetched: "fetch sampleSettings ?server (bootstrapUrl demotedSession) ''GET'' None True True
                   demotedSession = (Some ?r, ?s2)"
    by (simp add: fetch_def fetchAttempt_def demotedSession_def withPermissions_def sample_defs ok_def)
  have payload: "body ?r = Some (JBootstrap readOnlyBootstrap)"
    "cameras readOnlyBootstrap \<noteq> None" "nvr readOnlyBootstrap \<noteq> None"
    by (simp_all add: readOnlyBootstrap_def)
  have stored: "bootstrap demotedSession \<noteq> None"
    by (simp add: demotedSession_def withPermissions_def)
  from checkAdminUserStatus_total
         [of demotedSession _ _ sampleSettings ?server demotedSession ?r ?s2 readOnlyBootstrap]
       fresh fetched payload
  have "bootstrapProtect sampleSettings ?server demotedSession =
          (case checkAdminUserStatus (bootstrap demotedSession = None)
                  (if bootstrap demotedSession = None
                   then logInfo ConnectedToController (?s2\<lparr>bootstrap := Some readOnlyBootstrap\<rparr>)
                   else ?s2\<lparr>bootstrap := Some readOnlyBootstrap\<rparr>) of
             (Inl err, s6) \<Rightarrow> (Inl err, s6)
           | (Inr x, s6) \<Rightarrow> launchUpdatesListener sampleSettings ?server s6)"
    by blast
  moreover have "log (snd (case checkAdminUserStatus (bootstrap demotedSession = None)
                  (if bootstrap demotedSession = None
                   then logInfo ConnectedToController (?s2\<lparr>bootstrap := Some readOnlyBootstrap\<rparr>)
                   else ?s2\<lparr>bootstrap := Some readOnlyBootstrap\<rparr>) of
             (Inl err, s6) \<Rightarrow> (Inl err, s6)
           | (Inr x, s6) \<Rightarrow> launchUpdatesListener sampleSettings ?server s6))
         = [Info (RoleChange False), Info ConnectedToUpdates]"
    by code_simp
  ultimately have d: "log (snd (bootstrapProtect sampleSettings ?server demotedSession))
                        = [Info (RoleChange False), Info ConnectedToUpdates]"
    by (simp only:)
  have due: "loginAge renewalDue + PROTECT_LOGIN_REFRESH_INTERVAL sampleSettings * 1000
               < clock renewalDue"
    by (simp add: renewalDue_def withPermissions_def sample_defs)
  from checkAdminUserStatus_total [of renewalDue _ _ sampleSettings renewingServer] due
  have e: "bootstrap (snd (login sampleSettings renewingServer renewalDue)) = None"
    by blast
  from a b c d e show ?thesis by (simp only: simp_thms)
qed

subsection \<open>The pending-login latch\<close>

lemma latchInv_latch0: "latchInv latch0"
  by (simp add: latchInv_def latch0_def)

lemma latchInv_step:
  assumes "latchInv l"
  shows "latchInv (step l ev)"
proof (cases ev)
  case CallsLogin
  show ?thesis
  proof (cases "pendingLogin l")
    case None
    have fresh: "runs l \<notin> set (finalised l)"
      using assms less_irrefl [of "runs l"] unfolding latchInv_def by blast
    have all: "\<forall>p < runs l. p \<in> set (finalised l)"
      using assms None by (auto simp: latchInv_def)
    have old: "\<forall>p. settled l p \<noteq> None \<longrightarrow> p < runs l"
      "\<forall>p \<in> set (finalised l). settled l p \<noteq> None"
      using assms by (auto simp: latchInv_def)
    from fresh all old show ?thesis
      unfolding CallsLogin
      by (auto simp: None latchInv_def less_Suc_eq)
  next
    case (Some p)
    with assms show ?thesis
      unfolding CallsLogin by (simp add: latchInv_def)
  qed
next
  case (Settles p b)
  with assms show ?thesis
    by (auto simp: latchInv_def)
next
  case (Finally p)
  show ?thesis
  proof (cases "settled l p \<noteq> None \<and> p \<notin> set (finalised l)")
    case False
    with assms Finally show ?thesis by auto
  next
    case True
    with assms have "p < runs l" by (auto simp: latchInv_def)
    with assms True have mine: "pendingLogin l = Some p" by (auto simp: latchInv_def)
    have "\<forall>q < runs l. q \<in> set (finalised l) \<or> q = p"
      using assms mine by (auto simp: latchInv_def)
    with assms True show ?thesis
      unfolding Finally by (auto simp: latchInv_def)
  qed
qed

lemma latchInv_reachable: "latchInv (foldl step latch0 evs)"
  by (induction evs rule: rev_induct) (simp_all add: latchInv_latch0 latchInv_step)

lemma inFlight_pending:
  assumes "latchInv l" and "p \<in> set (inFlight l)"
  shows "pendingLogin l = Some p"
proof -
  from assms(2) have "p < runs l" and unsettled: "settled l p = None"
    by (simp_all add: inFlight_def)
  with assms(1) have "p \<notin> set (finalised l)" by (auto simp: latchInv_def)
  with assms(1) \<open>p < runs l\<close> show ?thesis by (auto simp: latchInv_def)
qed

lemma inFlight_at_most_one:
  assumes "latchInv l"
  shows "length (inFlight l) \<le> 1"
proof -
  have "distinct (inFlight l)" by (simp add: inFlight_def)
  then have len: "length (inFlight l) = card (set (inFlight l))"
    by (simp add: distinct_card)
  have "set (inFlight l) \<subseteq> {p. pendingLogin l = Some p}"
    using inFlight_pending [OF assms] by blast
  also have "\<dots> \<subseteq> {the (pendingLogin l)}" by auto
  finally have "card (set (inFlight l)) \<le> card {the (pendingLogin l)}"
    by (intro card_mono) simp_all
  with len show ?thesis by simp
qed

lemma callers_while_pending:
  assumes "pendingLogin l = Some p"
  shows "foldl step l (replicate n CallsLogin) = l\<lparr>handed := handed l @ replicate n p\<rparr>"
  using assms
proof (induction n arbitrary: l)
  case 0
  then show ?case by simp
next
  case (Suc n)
  have "foldl step l (replicate (Suc n) CallsLogin) =
        foldl step (l\<lparr>handed := handed l @ [p]\<rparr>) (replicate n CallsLogin)"
    using Suc.prems by simp
  also have "\<dots> = l\<lparr>handed := handed l @ [p]\<rparr>
                     \<lparr>handed := handed (l\<lparr>handed := handed l @ [p]\<rparr>) @ replicate n p\<rparr>"
    using Suc.prems by (intro Suc.IH) simp
  also have "\<dots> = l\<lparr>handed := handed l @ replicate (Suc n) p\<rparr>"
    by simp
  finally show ?case .
qed

lemma callers_from_idle:
  assumes "pendingLogin l = None"
  shows "foldl step l (replicate (Suc n) CallsLogin) =
           l\<lparr>pendingLogin := Some (runs l), runs := runs l + 1,
             handed := handed l @ replicate (Suc n) (runs l)\<rparr>"
proof -
  let ?l1 = "l\<lparr>pendingLogin := Some (runs l), runs := runs l + 1, handed := handed l @ [runs l]\<rparr>"
  have "foldl step l (replicate (Suc n) CallsLogin) = foldl step ?l1 (replicate n CallsLogin)"
    using assms by simp
  also have "\<dots> = ?l1\<lparr>handed := handed ?l1 @ replicate n (runs l)\<rparr>"
    by (intro callers_while_pending) simp
  finally show ?thesis by simp
qed


lemma inFlight_idle:
  assumes "latchInv l" and "pendingLogin l = None"
  shows "inFlight l = []"
proof (rule ccontr)
  assume "inFlight l \<noteq> []"
  then obtain p where "p \<in> set (inFlight l)" by (cases "inFlight l") auto
  from inFlight_pending [OF assms(1) this] assms(2) show False by simp
qed

text \<open>
  C7. After any sequence of events, at most one run of \<open>loginWrapped\<close> is in flight.
  When no attempt is pending and \<open>n + 1\<close> callers call \<open>login()\<close> before the attempt
  settles, exactly one run is started, it is the one in flight, and every caller is
  handed its promise. When that run settles with outcome \<open>b\<close>, success or failure, and
  its \<open>finally\<close> callback has run, the marker is cleared, nothing is in flight, no
  further run has been started, and every caller, those who called between the
  settling and the callback included, holds the promise of that one run, settled with
  \<open>b\<close>.
\<close>

theorem login_latch:
  "length (inFlight (foldl step latch0 evs)) \<le> 1
   \<and> (pendingLogin (foldl step latch0 evs) = None \<longrightarrow>
       (let l = foldl step latch0 evs;
            p = runs l;
            l1 = foldl step l (replicate (Suc n) CallsLogin);
            l2 = foldl step l1 (Settles p b # replicate m CallsLogin @ [Finally p])
        in runs l1 = runs l + 1 \<and> pendingLogin l1 = Some p \<and> inFlight l1 = [p]
           \<and> handed l1 = handed l @ replicate (Suc n) p
           \<and> runs l2 = runs l + 1 \<and> handed l2 = handed l @ replicate (Suc n + m) p
           \<and> settled l2 p = Some b \<and> pendingLogin l2 = None \<and> inFlight l2 = []))"
proof (intro conjI impI)
  show "length (inFlight (foldl step latch0 evs)) \<le> 1"
    by (intro inFlight_at_most_one latchInv_reachable)
next
  define l where "l = foldl step latch0 evs"
  define p where "p = runs l"
  define l1 where "l1 = foldl step l (replicate (Suc n) CallsLogin)"
  define l1' where "l1' = step l1 (Settles p b)"
  define l1'' where "l1'' = foldl step l1' (replicate m CallsLogin)"
  define l2 where "l2 = foldl step l1 (Settles p b # replicate m CallsLogin @ [Finally p])"
  assume "pendingLogin (foldl step latch0 evs) = None"
  then have idle: "pendingLogin l = None" by (simp add: l_def)
  have inv: "latchInv l" unfolding l_def by (rule latchInv_reachable)
  have unsettled: "settled l p = None"
    using inv less_irrefl [of "runs l"] unfolding latchInv_def p_def by blast
  have fresh: "p \<notin> set (finalised l)"
    using inv unsettled unfolding latchInv_def by blast
  have l1: "l1 = l\<lparr>pendingLogin := Some p, runs := runs l + 1,
                    handed := handed l @ replicate (Suc n) p\<rparr>"
    unfolding l1_def p_def by (rule callers_from_idle [OF idle])
  have inv1: "latchInv l1"
    unfolding l1_def l_def foldl_append [symmetric] by (rule latchInv_reachable)
  have "p \<in> set (inFlight l1)"
    using unsettled by (simp add: inFlight_def l1 p_def)
  moreover have "length (inFlight l1) \<le> 1"
    by (rule inFlight_at_most_one [OF inv1])
  ultimately have flight1: "inFlight l1 = [p]"
    by (cases "inFlight l1") auto
  have l1': "l1' = l1\<lparr>settled := (settled l1)(p \<mapsto> b)\<rparr>"
    using unsettled by (simp add: l1'_def l1 p_def)
  have "pendingLogin l1' = Some p" by (simp add: l1' l1)
  then have l1'': "l1'' = l1'\<lparr>handed := handed l1' @ replicate m p\<rparr>"
    unfolding l1''_def by (rule callers_while_pending)
  have "l2 = step l1'' (Finally p)"
    by (simp add: l2_def l1''_def l1'_def)
  then have l2: "l2 = l1''\<lparr>pendingLogin := None, finalised := p # finalised l1''\<rparr>"
    using fresh by (simp add: l1'' l1' l1)
  have inv2: "latchInv l2"
    unfolding l2_def l1_def l_def foldl_append [symmetric] by (rule latchInv_reachable)
  have flight2: "inFlight l2 = []"
    by (rule inFlight_idle [OF inv2]) (simp add: l2)
  have "runs l1 = runs l + 1 \<and> pendingLogin l1 = Some p \<and> inFlight l1 = [p]
           \<and> handed l1 = handed l @ replicate (Suc n) p
           \<and> runs l2 = runs l + 1 \<and> handed l2 = handed l @ replicate (Suc n + m) p
           \<and> settled l2 p = Some b \<and> pendingLogin l2 = None \<and> inFlight l2 = []"
    using flight1 flight2 by (simp add: l2 l1'' l1' l1 replicate_add)
  then show "let l = foldl step latch0 evs;
            p = runs l;
            l1 = foldl step l (replicate (Suc n) CallsLogin);
            l2 = foldl step l1 (Settles p b # replicate m CallsLogin @ [Finally p])
        in runs l1 = runs l + 1 \<and> pendingLogin l1 = Some p \<and> inFlight l1 = [p]
           \<and> handed l1 = handed l @ replicate (Suc n) p
           \<and> runs l2 = runs l + 1 \<and> handed l2 = handed l @ replicate (Suc n + m) p
           \<and> settled l2 p = Some b \<and> pendingLogin l2 = None \<and> inFlight l2 = []"
    unfolding Let_def l_def [symmetric] p_def [symmetric] l1_def [symmetric] l2_def [symmetric] .
qed

theorem login_latch_witness:
  "pendingLogin (foldl step latch0 []) = None
   \<and> handed (foldl step latch0 [CallsLogin, CallsLogin, CallsLogin]) = [0, 0, 0]
   \<and> runs (foldl step latch0 [CallsLogin, CallsLogin, CallsLogin]) = 1
   \<and> inFlight (foldl step latch0 [CallsLogin, CallsLogin, CallsLogin]) = [0]
   \<and> handed (foldl step latch0
         [CallsLogin, CallsLogin, CallsLogin, Settles 0 False, CallsLogin, Finally 0]) = [0, 0, 0, 0]
   \<and> runs (foldl step latch0
         [CallsLogin, CallsLogin, CallsLogin, Settles 0 False, CallsLogin, Finally 0]) = 1
   \<and> settled (foldl step latch0
         [CallsLogin, CallsLogin, CallsLogin, Settles 0 False, CallsLogin, Finally 0]) 0 = Some False
   \<and> pendingLogin (foldl step latch0
         [CallsLogin, CallsLogin, CallsLogin, Settles 0 False, CallsLogin, Finally 0]) = None"
proof -
  let ?three = "foldl step latch0 [CallsLogin, CallsLogin, CallsLogin]"
  let ?six = "foldl step latch0
         [CallsLogin, CallsLogin, CallsLogin, Settles 0 False, CallsLogin, Finally 0]"
  have idle: "pendingLogin (foldl step latch0 []) = None"
    by (simp add: latch0_def)
  have start: "foldl step latch0 [] = latch0" "runs latch0 = 0" "handed latch0 = []"
    by (simp_all add: latch0_def)
  have callers: "replicate (Suc 2) CallsLogin = [CallsLogin, CallsLogin, CallsLogin]"
    "replicate 1 CallsLogin = [CallsLogin]"
    "replicate (Suc 2 + 1) (0::nat) = [0, 0, 0, 0]"
    "replicate (Suc 2) (0::nat) = [0, 0, 0]"
    by (simp_all add: numeral_2_eq_2)
  have later: "foldl step ?three (Settles 0 False # [CallsLogin] @ [Finally 0]) = ?six"
    by simp
  from login_latch [of "[]" 2 False 1] idle
  have "let l = foldl step latch0 [];
            p = runs l;
            l1 = foldl step l (replicate (Suc 2) CallsLogin);
            l2 = foldl step l1 (Settles p False # replicate 1 CallsLogin @ [Finally p])
        in runs l1 = runs l + 1 \<and> pendingLogin l1 = Some p \<and> inFlight l1 = [p]
           \<and> handed l1 = handed l @ replicate (Suc 2) p
           \<and> runs l2 = runs l + 1 \<and> handed l2 = handed l @ replicate (Suc 2 + 1) p
           \<and> settled l2 p = Some False \<and> pendingLogin l2 = None \<and> inFlight l2 = []"
    by blast
  then have "runs ?three = 1 \<and> pendingLogin ?three = Some 0 \<and> inFlight ?three = [0]
           \<and> handed ?three = [0, 0, 0]
           \<and> runs ?six = 1 \<and> handed ?six = [0, 0, 0, 0]
           \<and> settled ?six 0 = Some False \<and> pendingLogin ?six = None \<and> inFlight ?six = []"
    unfolding Let_def start callers later add_0 append_Nil .
  with idle show ?thesis by blast
qed

end
